theory Spec2Isabelle
  imports Main "HOL-Library.Word" "HOL-Library.Signed_Division"
begin

unbundle bit_operations_syntax

section \<open>Go values used by \<^verbatim>\<open>socket_linux.go\<close>\<close>

text \<open>
  A Go \<^verbatim>\<open>error\<close> is an interface value; \<^verbatim>\<open>nil\<close> is \<open>None\<close> of \<open>error option\<close>.
  \<open>Errno\<close> is \<^verbatim>\<open>syscall.Errno\<close> (a \<^verbatim>\<open>uintptr\<close>), \<open>SyscallError\<close> is
  \<^verbatim>\<open>os.SyscallError{Syscall, Err}\<close>, \<open>AddrError\<close> is \<^verbatim>\<open>net.AddrError{Err, Addr}\<close>.
  \<open>ErrConnect\<close> is the repository's connect error (see \<open>newErrConnect\<close> below).
  \<open>OtherError\<close> stands for any error value of another package, such as those of the resolver.
\<close>

datatype error =
    Errno nat
  | SyscallError string error
  | ErrConnect int
  | AddrError string string
  | OtherError string

text \<open>The two run-time panics the file can raise.\<close>

datatype panic = IndexOutOfRange | MakesliceCapOutOfRange

text \<open>Linux values of the constants of \<^verbatim>\<open>golang.org/x/sys/unix\<close> the file names.\<close>

definition EINTR :: nat where "EINTR = 4"
definition EBADF :: nat where "EBADF = 9"
definition EEXIST :: nat where "EEXIST = 17"
definition EINVAL :: nat where "EINVAL = 22"
definition EMFILE :: nat where "EMFILE = 24"
definition ENOTSOCK :: nat where "ENOTSOCK = 88"
definition ENOPROTOOPT :: nat where "ENOPROTOOPT = 92"
definition ENOBUFS :: nat where "ENOBUFS = 105"
definition EISCONN :: nat where "EISCONN = 106"
definition ECONNREFUSED :: nat where "ECONNREFUSED = 111"
definition EALREADY :: nat where "EALREADY = 114"
definition EINPROGRESS :: nat where "EINPROGRESS = 115"

definition AF_INET :: int where "AF_INET = 2"
definition AF_INET6 :: int where "AF_INET6 = 10"
definition SOCK_STREAM :: int where "SOCK_STREAM = 1"
definition IPPROTO_TCP :: int where "IPPROTO_TCP = 6"
definition TCP_QUICKACK :: int where "TCP_QUICKACK = 12"
definition SOL_SOCKET :: int where "SOL_SOCKET = 1"
definition SO_ERROR :: int where "SO_ERROR = 4"
definition SO_LINGER :: int where "SO_LINGER = 13"
definition EPOLL_CLOEXEC :: int where "EPOLL_CLOEXEC = 524288"
definition EPOLL_CTL_ADD :: int where "EPOLL_CTL_ADD = 1"
definition EPOLLIN :: "32 word" where "EPOLLIN = 1"
definition EPOLLOUT :: "32 word" where "EPOLLOUT = 4"
definition EPOLLET :: "32 word" where "EPOLLET = 2147483648"

text \<open>\<^verbatim>\<open>unix.Linger{Onoff, Linger}\<close>, \<^verbatim>\<open>unix.EpollEvent{Events uint32, Fd int32, Pad int32}\<close>
  and the two socket addresses the file builds. An \<^verbatim>\<open>int32\<close> is a \<open>32 word\<close> read with \<open>sint\<close>;
  a Go \<^verbatim>\<open>int\<close> is an \<open>int\<close>, and the one place where the file converts to
  \<^verbatim>\<open>int\<close> (line 85) wraps to the width of the target (\<open>go_int\<close>).\<close>

record Linger =
  Onoff :: int
  Linger :: int

record EpollEvent =
  Events :: "32 word"
  Fd :: "32 word"
  Pad :: "32 word"

datatype Sockaddr =
    SockaddrInet4 int "8 word list"
  | SockaddrInet6 int "32 word" "8 word list"

text \<open>Modelled from the spec: the struct \<^verbatim>\<open>event\<close> is declared in another file of the
  repository. The spec's ReadinessEvent is \<open>{descriptor, optional error}\<close>; the file under
  study names the fields \<^verbatim>\<open>Fd\<close> and \<^verbatim>\<open>Err\<close>.\<close>

record event =
  Fd :: int
  Err :: "error option"

text \<open>Modelled from the spec: \<^verbatim>\<open>newErrConnect\<close> is declared in another file of the
  repository. The spec says a nonzero pending error code "is wrapped into a descriptive
  connect-error carrying the numeric cause".\<close>

definition newErrConnect :: "int \<Rightarrow> error" where
  "newErrConnect n = ErrConnect n"

text \<open>\<^verbatim>\<open>os.NewSyscallError\<close>: \<^verbatim>\<open>nil\<close> for a \<^verbatim>\<open>nil\<close> cause, the wrapped cause otherwise.\<close>

definition NewSyscallError :: "string \<Rightarrow> error option \<Rightarrow> error option" where
  "NewSyscallError name err = (case err of None \<Rightarrow> None | Some e \<Rightarrow> Some (SyscallError name e))"

text \<open>\<^verbatim>\<open>fmt.Sprintf("%d", n)\<close>: the decimal digits of an \<^verbatim>\<open>int\<close>, with a minus sign.\<close>

definition digit_char :: "nat \<Rightarrow> char" where
  "digit_char d = ''0123456789'' ! d"

function show_nat :: "nat \<Rightarrow> string" where
  "show_nat n = (if n < 10 then [digit_char n] else show_nat (n div 10) @ [digit_char (n mod 10)])"
  by pat_completeness auto
termination
  by (relation "measure id") auto

definition show_int :: "int \<Rightarrow> string" where
  "show_int i = (if i < 0 then CHR ''-'' # show_nat (nat (- i)) else show_nat (nat i))"

section \<open>The operating system as the file sees it\<close>

text \<open>
  Every function of \<^verbatim>\<open>golang.org/x/sys/unix\<close> the file calls, with its Go signature. The
  state \<open>'w\<close> of the world (the kernel) is passed in and returned, so two calls with the same
  arguments may answer differently. Nothing is assumed about the answers: a theorem about an
  arbitrary \<open>'w unix\<close> holds whatever the kernel does.

  \<open>EpollWait epfd len msec\<close> is given the length of the caller's buffer and answers the
  entries it stored from the front of the buffer, the count \<^verbatim>\<open>n\<close> and the error.

  \<open>IntSize\<close> is the width in bits of Go's \<^verbatim>\<open>int\<close> on the target the package is built
  for (\<^verbatim>\<open>strconv.IntSize\<close>: 32 or 64). The file does arithmetic on an \<^verbatim>\<open>int\<close> at one
  place only, line 85, and the width is used there.
\<close>

record 'w unix =
  IntSize :: nat
  Socket :: "int \<Rightarrow> int \<Rightarrow> int \<Rightarrow> 'w \<Rightarrow> (int \<times> error option) \<times> 'w"
  CloseOnExec :: "int \<Rightarrow> 'w \<Rightarrow> 'w"
  SetNonblock :: "int \<Rightarrow> bool \<Rightarrow> 'w \<Rightarrow> error option \<times> 'w"
  SetsockoptInt :: "int \<Rightarrow> int \<Rightarrow> int \<Rightarrow> int \<Rightarrow> 'w \<Rightarrow> error option \<times> 'w"
  SetsockoptLinger :: "int \<Rightarrow> int \<Rightarrow> int \<Rightarrow> Linger \<Rightarrow> 'w \<Rightarrow> error option \<times> 'w"
  Close :: "int \<Rightarrow> 'w \<Rightarrow> error option \<times> 'w"
  EpollCreate1 :: "int \<Rightarrow> 'w \<Rightarrow> (int \<times> error option) \<times> 'w"
  EpollCtl :: "int \<Rightarrow> int \<Rightarrow> int \<Rightarrow> EpollEvent \<Rightarrow> 'w \<Rightarrow> error option \<times> 'w"
  EpollWait :: "int \<Rightarrow> nat \<Rightarrow> int \<Rightarrow> 'w \<Rightarrow> (EpollEvent list \<times> int \<times> error option) \<times> 'w"
  GetsockoptInt :: "int \<Rightarrow> int \<Rightarrow> int \<Rightarrow> 'w \<Rightarrow> (int \<times> error option) \<times> 'w"
  Connect :: "int \<Rightarrow> Sockaddr \<Rightarrow> 'w \<Rightarrow> error option \<times> 'w"

section \<open>The functions of \<^verbatim>\<open>socket_linux.go\<close>\<close>

text \<open>Names are the source's; a leading underscore, which Isabelle does not allow, is dropped
  (\<^verbatim>\<open>_createSocket\<close> is \<open>createSocket\<close>, and so on).\<close>

definition maxEpollEvents :: nat where
  "maxEpollEvents = 32"

subsection \<open>Socket creation (lines 15 to 63)\<close>

definition createSocket :: "'w unix \<Rightarrow> int \<Rightarrow> 'w \<Rightarrow> (int \<times> error option) \<times> 'w" where
  "createSocket os family w =
     (let ((fd, err), w1) = Socket os family SOCK_STREAM 0 w;
          w2 = CloseOnExec os fd w1
      in ((fd, err), w2))"

definition setSockOpts :: "'w unix \<Rightarrow> int \<Rightarrow> 'w \<Rightarrow> error option \<times> 'w" where
  "setSockOpts os fd w =
     (let (err, w1) = SetNonblock os fd True w
      in if err \<noteq> None then (err, w1)
         else SetsockoptInt os fd IPPROTO_TCP TCP_QUICKACK 0 w1)"

definition createNonBlockingSocket :: "'w unix \<Rightarrow> int \<Rightarrow> 'w \<Rightarrow> (int \<times> error option) \<times> 'w" where
  "createNonBlockingSocket os family w =
     (let ((fd, err), w1) = createSocket os family w
      in if err \<noteq> None then ((0, err), w1)
         else (let (err', w2) = setSockOpts os fd w1
               in if err' \<noteq> None
                  then (let (cerr, w3) = Close os fd w2 in ((fd, err'), w3))
                  else ((fd, err'), w2)))"

definition zeroLinger :: Linger where
  "zeroLinger = \<lparr>Onoff = 1, Linger = 0\<rparr>"

definition setZeroLinger :: "'w unix \<Rightarrow> int \<Rightarrow> 'w \<Rightarrow> error option \<times> 'w" where
  "setZeroLinger os fd w = SetsockoptLinger os fd SOL_SOCKET SO_LINGER zeroLinger w"

definition createSocketZeroLinger ::
    "'w unix \<Rightarrow> int \<Rightarrow> bool \<Rightarrow> 'w \<Rightarrow> (int \<times> error option) \<times> 'w" where
  "createSocketZeroLinger os family zl w =
     (let ((fd, err), w1) = createNonBlockingSocket os family w
      in if err = None
         then (if zl
               then (let (err', w2) = setZeroLinger os fd w1 in ((fd, err'), w2))
               else ((fd, err), w1))
         else ((fd, err), w1))"

subsection \<open>The poller (lines 65 to 111)\<close>

definition createPoller :: "'w unix \<Rightarrow> 'w \<Rightarrow> (int \<times> error option) \<times> 'w" where
  "createPoller os w =
     (let ((fd, err), w1) = EpollCreate1 os EPOLL_CLOEXEC w;
          err' = (if err \<noteq> None then NewSyscallError ''epoll_create1'' err else err)
      in ((fd, err'), w1))"

definition registerEvents :: "'w unix \<Rightarrow> int \<Rightarrow> int \<Rightarrow> 'w \<Rightarrow> error option \<times> 'w" where
  "registerEvents os pollerFd fd w =
     (let ev = \<lparr>Events = EPOLLOUT OR EPOLLIN OR EPOLLET, EpollEvent.Fd = word_of_int fd, Pad = 0\<rparr>;
          (err, w1) = EpollCtl os pollerFd EPOLL_CTL_ADD fd ev w
      in if err \<noteq> None
         then (NewSyscallError
                 (''epoll_ctl('' @ show_int pollerFd @ '', ADD, '' @ show_int fd @ '', ...)'') err,
               w1)
         else (None, w1))"

text \<open>Line 85: \<^verbatim>\<open>int(timeout.Nanoseconds() / 1000000)\<close>. A \<^verbatim>\<open>time.Duration\<close> is an
  \<^verbatim>\<open>int64\<close> count of nanoseconds; Go's integer division truncates towards zero (\<open>sdiv\<close>);
  the conversion \<^verbatim>\<open>int(...)\<close> keeps the low \<open>bits\<close> bits of the quotient, read as a signed
  number (on a 64-bit target that is the quotient itself, on a 32-bit target it wraps).\<close>

definition go_int :: "nat \<Rightarrow> int \<Rightarrow> int" where
  "go_int bits x = signed_take_bit (bits - 1) x"

definition timeoutMS :: "nat \<Rightarrow> 64 word \<Rightarrow> int" where
  "timeoutMS bits timeout = go_int bits (sint timeout sdiv 1000000)"

text \<open>Lines 98 to 108, the body of the loop, for the raw event \<^verbatim>\<open>epollEvents[i]\<close>.\<close>

definition pollEvents_body :: "'w unix \<Rightarrow> EpollEvent \<Rightarrow> 'w \<Rightarrow> event \<times> 'w" where
  "pollEvents_body os raw w =
     (let fd = sint (EpollEvent.Fd raw);
          evt = \<lparr>Fd = fd, Err = None\<rparr>;
          ((errCode, err), w1) = GetsockoptInt os fd SOL_SOCKET SO_ERROR w;
          evt1 = (if err \<noteq> None then evt\<lparr>Err := NewSyscallError ''getsockopt'' err\<rparr> else evt);
          evt2 = (if errCode \<noteq> 0 then evt1\<lparr>Err := Some (newErrConnect errCode)\<rparr> else evt1)
      in (evt2, w1))"

text \<open>Lines 97 to 109: the loop over \<^verbatim>\<open>i\<close>. Reading \<^verbatim>\<open>epollEvents[i]\<close> beyond the
  array panics.\<close>

function poll_loop ::
    "'w unix \<Rightarrow> EpollEvent list \<Rightarrow> int \<Rightarrow> nat \<Rightarrow> event list \<Rightarrow> 'w \<Rightarrow> panic + (event list \<times> 'w)" where
  "poll_loop os epollEvents nEvents i events w =
     (if int i < nEvents
      then (if i < length epollEvents
            then poll_loop os epollEvents nEvents (i + 1)
                   (events @ [fst (pollEvents_body os (epollEvents ! i) w)])
                   (snd (pollEvents_body os (epollEvents ! i) w))
            else Inl IndexOutOfRange)
      else Inr (events, w))"
  by pat_completeness auto
termination
  by (relation "measure (\<lambda>(os, epollEvents, nEvents, i, events, w). nat (nEvents - int i))") auto

text \<open>What the loop computes, said without the index: the body applied to each entry in
  order, each read seeing the kernel as the one before left it. It is used only in the
  lemmas that say what the loop returns (\<open>poll_loop_bodies\<close>, \<open>pollEvents_returns\<close>).\<close>

fun bodies :: "'w unix \<Rightarrow> EpollEvent list \<Rightarrow> 'w \<Rightarrow> event list \<times> 'w" where
  "bodies os [] w = ([], w)"
| "bodies os (raw # raws) w =
     (fst (pollEvents_body os raw w) # fst (bodies os raws (snd (pollEvents_body os raw w))),
      snd (bodies os raws (snd (pollEvents_body os raw w))))"

text \<open>The array \<^verbatim>\<open>epollEvents\<close> after the call: what the kernel stored, over the zero
  values the declaration put there.\<close>

definition zeroEpollEvent :: EpollEvent where
  "zeroEpollEvent = \<lparr>Events = 0, EpollEvent.Fd = 0, Pad = 0\<rparr>"

definition stored_over :: "'a list \<Rightarrow> 'a list \<Rightarrow> 'a list" where
  "stored_over buf stored = take (length buf) (stored @ drop (length stored) buf)"

definition pollEvents ::
    "'w unix \<Rightarrow> int \<Rightarrow> 64 word \<Rightarrow> 'w \<Rightarrow> panic + ((event list \<times> error option) \<times> 'w)" where
  "pollEvents os pollerFd timeout w =
     (let ((stored, nEvents, err), w1) =
            EpollWait os pollerFd maxEpollEvents (timeoutMS (IntSize os) timeout) w;
          epollEvents = stored_over (replicate maxEpollEvents zeroEpollEvent) stored
      in if err \<noteq> None
         then (if err = Some (Errno EINTR)
               then Inr (([], None), w1)
               else Inr (([], NewSyscallError ''epoll_wait'' err), w1))
         else if nEvents < 0 then Inl MakesliceCapOutOfRange
         else (case poll_loop os epollEvents nEvents 0 [] w1 of
                 Inl p \<Rightarrow> Inl p
               | Inr (events, w2) \<Rightarrow> Inr ((events, None), w2)))"

subsection \<open>The event translator of the spec\<close>

text \<open>
  Section 4.5 of the spec, written from its words and not from the code, to be compared with
  what \<open>pollEvents\<close> returns: "Given a ready descriptor, read its pending socket-level error
  code. Zero means the connect completed successfully; non-zero means the connect failed, and
  the code is wrapped into a descriptive connect-error carrying the numeric cause. If reading
  the error code itself fails at the OS level, that failure is attached to the event instead."
  \<open>spec_translate_all\<close> does so for the descriptors of a batch, in order.
\<close>

definition spec_translate :: "'w unix \<Rightarrow> int \<Rightarrow> 'w \<Rightarrow> event \<times> 'w" where
  "spec_translate os fd w =
     (let ((code, rerr), w1) = GetsockoptInt os fd SOL_SOCKET SO_ERROR w
      in (\<lparr>Fd = fd,
           Err = (case rerr of
                    Some e \<Rightarrow> Some (SyscallError ''getsockopt'' e)
                  | None \<Rightarrow> if code = 0 then None else Some (newErrConnect code))\<rparr>,
          w1))"

fun spec_translate_all :: "'w unix \<Rightarrow> int list \<Rightarrow> 'w \<Rightarrow> event list \<times> 'w" where
  "spec_translate_all os [] w = ([], w)"
| "spec_translate_all os (fd # fds) w =
     (fst (spec_translate os fd w) # fst (spec_translate_all os fds (snd (spec_translate os fd w))),
      snd (spec_translate_all os fds (snd (spec_translate os fd w))))"

text \<open>The kernel as the reads of the pending errors of the descriptors \<open>fds\<close>, in order,
  leave it.\<close>

fun after_reads :: "'w unix \<Rightarrow> int list \<Rightarrow> 'w \<Rightarrow> 'w" where
  "after_reads os [] w = w"
| "after_reads os (fd # fds) w =
     after_reads os fds (snd (GetsockoptInt os fd SOL_SOCKET SO_ERROR w))"

subsection \<open>Address resolution (lines 113 to 141)\<close>

text \<open>The functions of package \<^verbatim>\<open>net\<close> the file calls. \<^verbatim>\<open>ResolveTCPAddr\<close> answers an
  error or an address, never both and never neither. A \<^verbatim>\<open>net.IP\<close> is a byte slice;
  \<^verbatim>\<open>To4\<close> and \<^verbatim>\<open>To16\<close> answer \<^verbatim>\<open>nil\<close> (\<open>None\<close>) or a slice.\<close>

record TCPAddr =
  IP :: "8 word list"
  Port :: int
  Zone :: string

record net =
  ResolveTCPAddr :: "string \<Rightarrow> string \<Rightarrow> error + TCPAddr"
  To4 :: "8 word list \<Rightarrow> 8 word list option"
  To16 :: "8 word list \<Rightarrow> 8 word list option"
  IPString :: "8 word list \<Rightarrow> string"

text \<open>\<^verbatim>\<open>var a [n]byte; copy(a[:], ip)\<close>: the first \<open>n\<close> bytes of \<open>ip\<close>, zeros after them.\<close>

definition copy_bytes :: "nat \<Rightarrow> 8 word list \<Rightarrow> 8 word list" where
  "copy_bytes n ip = take n ip @ replicate (n - length ip) 0"

definition parseSockAddr :: "net \<Rightarrow> string \<Rightarrow> Sockaddr option \<times> int \<times> error option" where
  "parseSockAddr nt addr =
     (case ResolveTCPAddr nt ''tcp'' addr of
        Inl err \<Rightarrow> (None, 0, Some err)
      | Inr tAddr \<Rightarrow>
          (case To4 nt (IP tAddr) of
             Some ip \<Rightarrow> (Some (SockaddrInet4 (Port tAddr) (copy_bytes 4 ip)), AF_INET, None)
           | None \<Rightarrow>
               (case To16 nt (IP tAddr) of
                  Some ip \<Rightarrow> (Some (SockaddrInet6 (Port tAddr) 0 (copy_bytes 16 ip)), AF_INET6, None)
                | None \<Rightarrow>
                    (None, 0,
                     Some (AddrError ''unsupported address family'' (IPString nt (IP tAddr)))))))"

subsection \<open>Starting the connection (lines 143 to 174)\<close>

text \<open>\<^verbatim>\<open>runtime.GOOS\<close> is a parameter. The \<^verbatim>\<open>switch\<close> takes the first case that
  equals \<^verbatim>\<open>serr\<close>.\<close>

definition connect ::
    "'w unix \<Rightarrow> string \<Rightarrow> int \<Rightarrow> Sockaddr \<Rightarrow> 'w \<Rightarrow> (bool \<times> error option) \<times> 'w" where
  "connect os GOOS fd addr w =
     (let (serr, w1) = Connect os fd addr w
      in if serr = Some (Errno EALREADY) \<or> serr = Some (Errno EINPROGRESS)
            \<or> serr = Some (Errno EINTR)
         then ((False, None), w1)
         else if serr = None \<or> serr = Some (Errno EISCONN)
         then ((True, None), w1)
         else if serr = Some (Errno EINVAL)
         then (if GOOS = ''solaris'' then ((True, None), w1) else ((False, serr), w1))
         else ((False, serr), w1))"

section \<open>A reference kernel\<close>

text \<open>
  An executable kernel for the calls above, written from the Linux manual pages (socket(2),
  fcntl(2), setsockopt(2), tcp(7), close(2), epoll_create1(2), epoll_ctl(2), epoll_wait(2),
  getsockopt(2), connect(2)). It keeps a descriptor table, the lowest free index of which is
  handed out next. The environment decides which calls fail: each fallible call takes the next
  number of \<open>faults\<close>; a nonzero number is the \<^verbatim>\<open>errno\<close> the call fails with, without
  effect, and zero or an exhausted list lets the call proceed. \<^verbatim>\<open>close\<close> releases an open
  descriptor whatever happens, and \<^verbatim>\<open>fcntl(F_SETFD)\<close>, whose result \<^verbatim>\<open>unix.CloseOnExec\<close>
  drops, can only fail on a descriptor that is not open. The target is one with a 64-bit
  \<^verbatim>\<open>int\<close> (linux/amd64).
\<close>

record socket =
  family :: int
  sotype :: int
  quickack :: bool
  linger :: "Linger option"
  so_error :: int

record epoll =
  interest :: "(int \<times> EpollEvent) list"
  ready :: "EpollEvent list"

datatype object = Sock socket | Epoll epoll

record filedesc =
  cloexec :: bool
  nonblock :: bool
  obj :: object

record kernel =
  fdtable :: "filedesc option list"
  faults :: "nat list"

definition errnoErr :: "nat \<Rightarrow> error option" where
  "errnoErr e = (if e = 0 then None else Some (Errno e))"

definition next_fault :: "kernel \<Rightarrow> error option \<times> kernel" where
  "next_fault k = (case faults k of [] \<Rightarrow> (None, k) | e # es \<Rightarrow> (errnoErr e, k\<lparr>faults := es\<rparr>))"

definition lookup :: "kernel \<Rightarrow> int \<Rightarrow> filedesc option" where
  "lookup k fd = (if 0 \<le> fd \<and> nat fd < length (fdtable k) then fdtable k ! nat fd else None)"

definition store :: "kernel \<Rightarrow> int \<Rightarrow> filedesc option \<Rightarrow> kernel" where
  "store k fd f = k\<lparr>fdtable := (fdtable k)[nat fd := f]\<rparr>"

fun first_free :: "filedesc option list \<Rightarrow> nat" where
  "first_free [] = 0"
| "first_free (None # fs) = 0"
| "first_free (Some f # fs) = Suc (first_free fs)"

definition install :: "kernel \<Rightarrow> filedesc \<Rightarrow> int \<times> kernel" where
  "install k f =
     (let n = first_free (fdtable k)
      in (int n,
          k\<lparr>fdtable := (if n < length (fdtable k) then (fdtable k)[n := Some f]
                         else fdtable k @ [Some f])\<rparr>))"

definition new_socket :: "int \<Rightarrow> int \<Rightarrow> filedesc" where
  "new_socket domain typ =
     \<lparr>cloexec = False, nonblock = False,
      obj = Sock \<lparr>family = domain, sotype = typ, quickack = True, linger = None, so_error = 0\<rparr>\<rparr>"

definition k_Socket :: "int \<Rightarrow> int \<Rightarrow> int \<Rightarrow> kernel \<Rightarrow> (int \<times> error option) \<times> kernel" where
  "k_Socket domain typ proto k =
     (case next_fault k of
        (Some e, k1) \<Rightarrow> ((- 1, Some e), k1)
      | (None, k1) \<Rightarrow> (let (fd, k2) = install k1 (new_socket domain typ) in ((fd, None), k2)))"

definition k_CloseOnExec :: "int \<Rightarrow> kernel \<Rightarrow> kernel" where
  "k_CloseOnExec fd k =
     (case lookup k fd of None \<Rightarrow> k | Some f \<Rightarrow> store k fd (Some (f\<lparr>cloexec := True\<rparr>)))"

definition k_SetNonblock :: "int \<Rightarrow> bool \<Rightarrow> kernel \<Rightarrow> error option \<times> kernel" where
  "k_SetNonblock fd nb k =
     (case next_fault k of
        (Some e, k1) \<Rightarrow> (Some e, k1)
      | (None, k1) \<Rightarrow>
          (case lookup k1 fd of
             None \<Rightarrow> (Some (Errno EBADF), k1)
           | Some f \<Rightarrow> (None, store k1 fd (Some (f\<lparr>nonblock := nb\<rparr>)))))"

text \<open>tcp(7): \<^verbatim>\<open>TCP_QUICKACK\<close> enables quickack mode if set and disables it if cleared.\<close>

definition k_SetsockoptInt ::
    "int \<Rightarrow> int \<Rightarrow> int \<Rightarrow> int \<Rightarrow> kernel \<Rightarrow> error option \<times> kernel" where
  "k_SetsockoptInt fd level opt v k =
     (case next_fault k of
        (Some e, k1) \<Rightarrow> (Some e, k1)
      | (None, k1) \<Rightarrow>
          (case lookup k1 fd of
             None \<Rightarrow> (Some (Errno EBADF), k1)
           | Some f \<Rightarrow>
               (case obj f of
                  Epoll ep \<Rightarrow> (Some (Errno ENOTSOCK), k1)
                | Sock s \<Rightarrow>
                    if level = IPPROTO_TCP \<and> opt = TCP_QUICKACK
                    then (None, store k1 fd (Some (f\<lparr>obj := Sock (s\<lparr>quickack := (v \<noteq> 0)\<rparr>)\<rparr>)))
                    else (Some (Errno ENOPROTOOPT), k1))))"

definition k_SetsockoptLinger ::
    "int \<Rightarrow> int \<Rightarrow> int \<Rightarrow> Linger \<Rightarrow> kernel \<Rightarrow> error option \<times> kernel" where
  "k_SetsockoptLinger fd level opt l k =
     (case next_fault k of
        (Some e, k1) \<Rightarrow> (Some e, k1)
      | (None, k1) \<Rightarrow>
          (case lookup k1 fd of
             None \<Rightarrow> (Some (Errno EBADF), k1)
           | Some f \<Rightarrow>
               (case obj f of
                  Epoll ep \<Rightarrow> (Some (Errno ENOTSOCK), k1)
                | Sock s \<Rightarrow>
                    if level = SOL_SOCKET \<and> opt = SO_LINGER
                    then (None, store k1 fd (Some (f\<lparr>obj := Sock (s\<lparr>linger := Some l\<rparr>)\<rparr>)))
                    else (Some (Errno ENOPROTOOPT), k1))))"

definition k_Close :: "int \<Rightarrow> kernel \<Rightarrow> error option \<times> kernel" where
  "k_Close fd k =
     (case lookup k fd of
        None \<Rightarrow> (Some (Errno EBADF), k)
      | Some f \<Rightarrow> (None, store k fd None))"

definition k_EpollCreate1 :: "int \<Rightarrow> kernel \<Rightarrow> (int \<times> error option) \<times> kernel" where
  "k_EpollCreate1 flags k =
     (case next_fault k of
        (Some e, k1) \<Rightarrow> ((- 1, Some e), k1)
      | (None, k1) \<Rightarrow>
          if flags = 0 \<or> flags = EPOLL_CLOEXEC
          then (let (fd, k2) = install k1 \<lparr>cloexec = (flags = EPOLL_CLOEXEC), nonblock = False,
                                            obj = Epoll \<lparr>interest = [], ready = []\<rparr>\<rparr>
                in ((fd, None), k2))
          else ((- 1, Some (Errno EINVAL)), k1))"

definition k_EpollCtl ::
    "int \<Rightarrow> int \<Rightarrow> int \<Rightarrow> EpollEvent \<Rightarrow> kernel \<Rightarrow> error option \<times> kernel" where
  "k_EpollCtl epfd op fd ev k =
     (case next_fault k of
        (Some e, k1) \<Rightarrow> (Some e, k1)
      | (None, k1) \<Rightarrow>
          (case lookup k1 epfd of
             None \<Rightarrow> (Some (Errno EBADF), k1)
           | Some ef \<Rightarrow>
               (case obj ef of
                  Sock s \<Rightarrow> (Some (Errno EINVAL), k1)
                | Epoll ep \<Rightarrow>
                    if lookup k1 fd = None then (Some (Errno EBADF), k1)
                    else if op \<noteq> EPOLL_CTL_ADD then (Some (Errno EINVAL), k1)
                    else if fd \<in> set (map fst (interest ep)) then (Some (Errno EEXIST), k1)
                    else (None,
                          store k1 epfd
                            (Some (ef\<lparr>obj := Epoll (ep\<lparr>interest := interest ep @ [(fd, ev)]\<rparr>)\<rparr>))))))"

text \<open>epoll_wait(2): up to \<open>len\<close> of the events that are ready are handed over; the others
  stay ready for a later call. This kernel has no clock: it answers at once with what is ready,
  and the bound \<open>msec\<close> plays no part in its answer (the kernel \<open>recorder\<close> below is the
  one that reads it).\<close>

definition k_EpollWait ::
    "int \<Rightarrow> nat \<Rightarrow> int \<Rightarrow> kernel \<Rightarrow> (EpollEvent list \<times> int \<times> error option) \<times> kernel" where
  "k_EpollWait epfd len msec k =
     (case next_fault k of
        (Some e, k1) \<Rightarrow> (([], - 1, Some e), k1)
      | (None, k1) \<Rightarrow>
          (case lookup k1 epfd of
             None \<Rightarrow> (([], - 1, Some (Errno EBADF)), k1)
           | Some ef \<Rightarrow>
               (case obj ef of
                  Sock s \<Rightarrow> (([], - 1, Some (Errno EINVAL)), k1)
                | Epoll ep \<Rightarrow>
                    if len = 0 then (([], - 1, Some (Errno EINVAL)), k1)
                    else ((take len (ready ep), int (length (take len (ready ep))), None),
                          store k1 epfd
                            (Some (ef\<lparr>obj := Epoll (ep\<lparr>ready := drop len (ready ep)\<rparr>)\<rparr>))))))"

text \<open>socket(7): reading \<^verbatim>\<open>SO_ERROR\<close> answers the pending error and clears it. A read that
  fails stores nothing, and \<^verbatim>\<open>unix.GetsockoptInt\<close> then answers the zero it started from.\<close>

definition k_GetsockoptInt ::
    "int \<Rightarrow> int \<Rightarrow> int \<Rightarrow> kernel \<Rightarrow> (int \<times> error option) \<times> kernel" where
  "k_GetsockoptInt fd level opt k =
     (case next_fault k of
        (Some e, k1) \<Rightarrow> ((0, Some e), k1)
      | (None, k1) \<Rightarrow>
          (case lookup k1 fd of
             None \<Rightarrow> ((0, Some (Errno EBADF)), k1)
           | Some f \<Rightarrow>
               (case obj f of
                  Epoll ep \<Rightarrow> ((0, Some (Errno ENOTSOCK)), k1)
                | Sock s \<Rightarrow>
                    if level = SOL_SOCKET \<and> opt = SO_ERROR
                    then ((so_error s, None),
                          store k1 fd (Some (f\<lparr>obj := Sock (s\<lparr>so_error := 0\<rparr>)\<rparr>)))
                    else ((0, Some (Errno ENOPROTOOPT)), k1))))"

definition k_Connect :: "int \<Rightarrow> Sockaddr \<Rightarrow> kernel \<Rightarrow> error option \<times> kernel" where
  "k_Connect fd addr k =
     (case next_fault k of
        (Some e, k1) \<Rightarrow> (Some e, k1)
      | (None, k1) \<Rightarrow>
          (case lookup k1 fd of
             None \<Rightarrow> (Some (Errno EBADF), k1)
           | Some f \<Rightarrow>
               (case obj f of
                  Epoll ep \<Rightarrow> (Some (Errno ENOTSOCK), k1)
                | Sock s \<Rightarrow> (None, k1))))"

definition linux :: "kernel unix" where
  "linux =
     \<lparr>IntSize = 64, Socket = k_Socket, CloseOnExec = k_CloseOnExec, SetNonblock = k_SetNonblock,
      SetsockoptInt = k_SetsockoptInt, SetsockoptLinger = k_SetsockoptLinger, Close = k_Close,
      EpollCreate1 = k_EpollCreate1, EpollCtl = k_EpollCtl, EpollWait = k_EpollWait,
      GetsockoptInt = k_GetsockoptInt, Connect = k_Connect\<rparr>"

text \<open>What the claims say of a descriptor, read off the table.\<close>

definition is_open :: "kernel \<Rightarrow> int \<Rightarrow> bool" where
  "is_open k fd = (lookup k fd \<noteq> None)"

definition sock_of :: "kernel \<Rightarrow> int \<Rightarrow> socket option" where
  "sock_of k fd =
     (case lookup k fd of
        None \<Rightarrow> None
      | Some f \<Rightarrow> (case obj f of Sock s \<Rightarrow> Some s | Epoll ep \<Rightarrow> None))"

definition ready_of :: "kernel \<Rightarrow> int \<Rightarrow> EpollEvent list" where
  "ready_of k fd =
     (case lookup k fd of
        None \<Rightarrow> []
      | Some f \<Rightarrow> (case obj f of Sock s \<Rightarrow> [] | Epoll ep \<Rightarrow> ready ep))"

text \<open>The reference kernel with a pending-error read that answers a value together with an
  error. The Go signature \<^verbatim>\<open>(value int, err error)\<close> allows such an answer; the reference
  kernel itself never gives one (a read that fails answers zero).\<close>

definition value_and_error :: "kernel unix" where
  "value_and_error =
     linux\<lparr>GetsockoptInt := (\<lambda>fd level opt k. ((int ECONNREFUSED, Some (Errno EBADF)), k))\<rparr>"

text \<open>epoll_wait(2) declares its timeout as a C \<^verbatim>\<open>int\<close>: whatever the width of the Go
  \<^verbatim>\<open>int\<close> handed to \<^verbatim>\<open>unix.EpollWait\<close>, the kernel reads its low 32 bits as a signed
  number of milliseconds. A negative number means no bound (the wait blocks until an event),
  zero means the wait returns at once. \<open>within_timeout b ns\<close>: the bound \<open>b\<close> the kernel
  reads does not exceed a timeout of \<open>ns\<close> nanoseconds.\<close>

definition c_int :: "int \<Rightarrow> int" where
  "c_int x = signed_take_bit 31 x"

definition within_timeout :: "int \<Rightarrow> int \<Rightarrow> bool" where
  "within_timeout b ns = (0 \<le> b \<and> b * 1000000 \<le> ns)"

text \<open>A kernel on which no descriptor is open and nothing ever becomes ready, for a target
  whose \<^verbatim>\<open>int\<close> has \<open>bits\<close> bits. Every wait ends with no event, and the kernel
  writes down the bound it read: its state is the list of the bounds of the waits so far, the
  latest first.\<close>

definition recorder :: "nat \<Rightarrow> int list unix" where
  "recorder bits =
     \<lparr>IntSize = bits,
      Socket = (\<lambda>domain typ proto l. ((- 1, Some (Errno EMFILE)), l)),
      CloseOnExec = (\<lambda>fd l. l),
      SetNonblock = (\<lambda>fd nb l. (Some (Errno EBADF), l)),
      SetsockoptInt = (\<lambda>fd level opt v l. (Some (Errno EBADF), l)),
      SetsockoptLinger = (\<lambda>fd level opt lg l. (Some (Errno EBADF), l)),
      Close = (\<lambda>fd l. (Some (Errno EBADF), l)),
      EpollCreate1 = (\<lambda>flags l. ((- 1, Some (Errno EMFILE)), l)),
      EpollCtl = (\<lambda>epfd op fd ev l. (Some (Errno EBADF), l)),
      EpollWait = (\<lambda>epfd len msec l. (([], 0, None), c_int msec # l)),
      GetsockoptInt = (\<lambda>fd level opt l. ((0, Some (Errno EBADF)), l)),
      Connect = (\<lambda>fd addr l. (Some (Errno EBADF), l))\<rparr>"

text \<open>Package \<^verbatim>\<open>net\<close> as documented: \<^verbatim>\<open>IP.To4\<close> answers the four bytes of a 4-byte
  address or of a 16-byte IPv4-mapped one, \<^verbatim>\<open>IP.To16\<close> the sixteen bytes of a 4-byte
  (mapped) or a 16-byte address. The resolver of the examples knows the literals it is
  asked here.\<close>

definition v4InV6Prefix :: "8 word list" where
  "v4InV6Prefix = [0, 0, 0, 0, 0, 0, 0, 0, 0, 0, 255, 255]"

definition go_To4 :: "8 word list \<Rightarrow> 8 word list option" where
  "go_To4 ip =
     (if length ip = 4 then Some ip
      else if length ip = 16 \<and> take 12 ip = v4InV6Prefix then Some (drop 12 ip)
      else None)"

definition go_To16 :: "8 word list \<Rightarrow> 8 word list option" where
  "go_To16 ip =
     (if length ip = 4 then Some (v4InV6Prefix @ ip)
      else if length ip = 16 then Some ip
      else None)"

definition example_resolver :: "string \<Rightarrow> string \<Rightarrow> error + TCPAddr" where
  "example_resolver network addr =
     (if addr = ''127.0.0.1:80''
      then Inr \<lparr>IP = v4InV6Prefix @ [127, 0, 0, 1], Port = 80, Zone = []\<rparr>
      else if addr = ''[::1]:80''
      then Inr \<lparr>IP = [0, 0, 0, 0, 0, 0, 0, 0, 0, 0, 0, 0, 0, 0, 0, 1], Port = 80, Zone = []\<rparr>
      else if addr = '':80''
      then Inr \<lparr>IP = [], Port = 80, Zone = []\<rparr>
      else Inl (AddrError ''missing port in address'' addr))"

definition go_net :: net where
  "go_net = \<lparr>ResolveTCPAddr = example_resolver, To4 = go_To4, To16 = go_To16,
             IPString = (\<lambda>ip. if ip = [] then ''<nil>'' else ''?'')\<rparr>"

text \<open>States used as examples. \<open>ready_socket\<close> is a descriptor as socket creation leaves it;
  \<open>pending_socket e\<close> is such a socket whose connection attempt has ended with the pending
  error \<open>e\<close>. In \<open>poller_kernel errs fs\<close> descriptor 0 is a poller and descriptors 1, 2, ...
  are sockets with the pending errors \<open>errs\<close>, all of them registered and ready.\<close>

definition ready_socket :: "int \<Rightarrow> bool \<Rightarrow> filedesc" where
  "ready_socket fam zl =
     \<lparr>cloexec = True, nonblock = True,
      obj = Sock \<lparr>family = fam, sotype = SOCK_STREAM, quickack = False,
                 linger = (if zl then Some zeroLinger else None), so_error = 0\<rparr>\<rparr>"

definition pending_socket :: "int \<Rightarrow> filedesc" where
  "pending_socket e =
     \<lparr>cloexec = True, nonblock = True,
      obj = Sock \<lparr>family = AF_INET, sotype = SOCK_STREAM, quickack = False,
                 linger = None, so_error = e\<rparr>\<rparr>"

definition ready_event :: "nat \<Rightarrow> EpollEvent" where
  "ready_event fd = \<lparr>Events = EPOLLOUT, EpollEvent.Fd = of_nat fd, Pad = 0\<rparr>"

definition poller_epoll :: "nat \<Rightarrow> epoll" where
  "poller_epoll m =
     \<lparr>interest = map (\<lambda>i. (int i, ready_event i)) [1..<m + 1],
      ready = map ready_event [1..<m + 1]\<rparr>"

definition poller_file :: "nat \<Rightarrow> filedesc" where
  "poller_file m = \<lparr>cloexec = True, nonblock = False, obj = Epoll (poller_epoll m)\<rparr>"

definition poller_kernel :: "int list \<Rightarrow> nat list \<Rightarrow> kernel" where
  "poller_kernel errs fs =
     \<lparr>fdtable = Some (poller_file (length errs)) # map (\<lambda>e. Some (pending_socket e)) errs,
      faults = fs\<rparr>"

text \<open>\<open>waited_kernel errs fs\<close> is \<open>poller_kernel errs fs\<close> after a wait has handed all ready
  events over: nothing is ready any more.\<close>

definition waited_kernel :: "int list \<Rightarrow> nat list \<Rightarrow> kernel" where
  "waited_kernel errs fs =
     \<lparr>fdtable =
        Some \<lparr>cloexec = True, nonblock = False,
              obj = Epoll ((poller_epoll (length errs))\<lparr>ready := []\<rparr>)\<rparr>
        # map (\<lambda>e. Some (pending_socket e)) errs,
      faults = fs\<rparr>"

definition empty_kernel :: "nat list \<Rightarrow> kernel" where
  "empty_kernel fs = \<lparr>fdtable = [], faults = fs\<rparr>"

section \<open>Auxiliary facts\<close>

declare poll_loop.simps [simp del]
declare show_nat.simps [simp del]

lemmas errno_defs = EINTR_def EBADF_def EEXIST_def EINVAL_def EMFILE_def ENOTSOCK_def
  ENOPROTOOPT_def ENOBUFS_def EISCONN_def ECONNREFUSED_def EALREADY_def EINPROGRESS_def

lemmas const_defs = AF_INET_def AF_INET6_def SOCK_STREAM_def IPPROTO_TCP_def TCP_QUICKACK_def
  SOL_SOCKET_def SO_ERROR_def SO_LINGER_def EPOLL_CLOEXEC_def EPOLL_CTL_ADD_def
  EPOLLIN_def EPOLLOUT_def EPOLLET_def

subsection \<open>Arithmetic of the timeout\<close>

lemma sdiv_nonneg: "0 \<le> (a::int) \<Longrightarrow> a sdiv 1000000 = a div 1000000"
  by (simp add: signed_divide_int_def sgn_if)

lemma div_floor_bounds:
  assumes "0 \<le> (x::int)" and "0 < b"
  shows "0 \<le> x div b \<and> x div b * b \<le> x \<and> x < (x div b + 1) * b"
proof -
  have e: "x div b * b + x mod b = x" by simp
  have "0 \<le> x mod b" and "x mod b < b" using assms(2) by simp_all
  then have "x div b * b \<le> x" and "x < x div b * b + b" using e by linarith+
  moreover have "0 \<le> x div b" using assms by (simp add: pos_imp_zdiv_nonneg_iff)
  ultimately show ?thesis by (simp add: algebra_simps)
qed

text \<open>Within 31 bits the conversion to \<^verbatim>\<open>int\<close> and the kernel's reading change nothing.\<close>

lemma go_int_id: "bits = 32 \<or> bits = 64 \<Longrightarrow> 0 \<le> m \<Longrightarrow> m < 2147483648 \<Longrightarrow> go_int bits m = m"
  by (auto simp: go_int_def intro!: signed_take_bit_int_eq_self)

lemma c_int_id: "0 \<le> m \<Longrightarrow> m < 2147483648 \<Longrightarrow> c_int m = m"
  by (auto simp: c_int_def intro!: signed_take_bit_int_eq_self)

lemma div_in_range:
  assumes "0 \<le> (x::int)" and "x < 2147483648000000"
  shows "0 \<le> x div 1000000 \<and> x div 1000000 < 2147483648"
proof -
  have b: "0 \<le> x div 1000000 \<and> x div 1000000 * 1000000 \<le> x \<and> x < (x div 1000000 + 1) * 1000000"
    by (rule div_floor_bounds [OF assms(1)]) simp
  then have "x div 1000000 * 1000000 < 2147483648 * 1000000" using assms(2) by linarith
  then have "x div 1000000 < 2147483648" by simp
  with b show ?thesis by simp
qed

lemma timeoutMS_in_range:
  assumes "bits = 32 \<or> bits = 64" and "0 \<le> sint t" and "sint t < 2147483648000000"
  shows "timeoutMS bits t = sint t div 1000000" and "c_int (timeoutMS bits t) = sint t div 1000000"
proof -
  have r: "0 \<le> sint t div 1000000 \<and> sint t div 1000000 < 2147483648"
    by (rule div_in_range [OF assms(2,3)])
  show m: "timeoutMS bits t = sint t div 1000000"
    using go_int_id [OF assms(1), of "sint t div 1000000"] r assms(2)
    by (simp add: timeoutMS_def sdiv_nonneg)
  show "c_int (timeoutMS bits t) = sint t div 1000000"
    using c_int_id [of "sint t div 1000000"] r by (simp add: m)
qed

subsection \<open>The loop of \<open>pollEvents\<close>\<close>

lemma pollEvents_body_eq:
  assumes "GetsockoptInt os (sint (EpollEvent.Fd raw)) SOL_SOCKET SO_ERROR w = ((errCode, rerr), w1)"
  shows "pollEvents_body os raw w =
           (\<lparr>Fd = sint (EpollEvent.Fd raw),
             Err = (if errCode \<noteq> 0 then Some (newErrConnect errCode)
                    else NewSyscallError ''getsockopt'' rerr)\<rparr>, w1)"
  using assms by (cases rerr) (simp_all add: pollEvents_body_def NewSyscallError_def)

lemma pollEvents_body_Fd:
  "event.Fd (fst (pollEvents_body os raw w)) = sint (EpollEvent.Fd raw)"
  by (simp add: pollEvents_body_def Let_def split: prod.splits)

lemma take_drop_step:
  assumes "i < length buf" and "i < m"
  shows "take (m - i) (drop i buf) = buf ! i # take (m - Suc i) (drop (Suc i) buf)"
proof -
  have "drop i buf = buf ! i # drop (Suc i) buf"
    using assms(1) by (simp add: Cons_nth_drop_Suc)
  moreover have "m - i = Suc (m - Suc i)"
    using assms(2) by simp
  ultimately show ?thesis by simp
qed

text \<open>A loop that returns has read exactly the first \<open>nEvents\<close> entries of the array, in
  order, and the array was long enough.\<close>

lemma poll_loop_result:
  "poll_loop os buf n i acc w = Inr (evs, w') \<Longrightarrow>
     map event.Fd evs
       = map event.Fd acc @ map (\<lambda>e. sint (EpollEvent.Fd e)) (take (nat n - i) (drop i buf))
     \<and> length evs = length acc + (nat n - i)
     \<and> (int i < n \<longrightarrow> nat n \<le> length buf)"
proof (induction os buf n i acc w rule: poll_loop.induct)
  case (1 os epollEvents nEvents i events w)
  show ?case
  proof (cases "int i < nEvents")
    case False
    then have "nat nEvents - i = 0" by simp
    with False "1.prems" show ?thesis
      by (simp add: poll_loop.simps [of os epollEvents nEvents i])
  next
    case True
    show ?thesis
    proof (cases "i < length epollEvents")
      case False
      with True "1.prems" show ?thesis
        by (simp add: poll_loop.simps [of os epollEvents nEvents i])
    next
      case inb: True
      let ?b = "pollEvents_body os (epollEvents ! i) w"
      have rec: "poll_loop os epollEvents nEvents (i + 1) (events @ [fst ?b]) (snd ?b) = Inr (evs, w')"
        using True inb "1.prems" by (simp add: poll_loop.simps [of os epollEvents nEvents i])
      note ih = "1.IH" [OF True inb rec]
      have lt: "i < nat nEvents" using True by simp
      have step: "take (nat nEvents - i) (drop i epollEvents)
                    = epollEvents ! i # take (nat nEvents - Suc i) (drop (Suc i) epollEvents)"
        by (rule take_drop_step [OF inb lt])
      have bound: "nat nEvents \<le> length epollEvents"
      proof (cases "int (i + 1) < nEvents")
        case True
        with ih show ?thesis by simp
      next
        case False
        then have "nat nEvents \<le> i + 1" by simp
        with inb show ?thesis by simp
      qed
      show ?thesis
        using ih lt bound by (simp add: step pollEvents_body_Fd)
    qed
  qed
qed

text \<open>The events of a loop that returns are those of the bodies, run in order.\<close>

lemma poll_loop_bodies:
  "poll_loop os buf n i acc w = Inr (evs, w') \<Longrightarrow>
     evs = acc @ fst (bodies os (take (nat n - i) (drop i buf)) w)
     \<and> w' = snd (bodies os (take (nat n - i) (drop i buf)) w)"
proof (induction os buf n i acc w rule: poll_loop.induct)
  case (1 os epollEvents nEvents i events w)
  show ?case
  proof (cases "int i < nEvents")
    case False
    then have "nat nEvents - i = 0" by simp
    with False "1.prems" show ?thesis
      by (simp add: poll_loop.simps [of os epollEvents nEvents i])
  next
    case True
    show ?thesis
    proof (cases "i < length epollEvents")
      case False
      with True "1.prems" show ?thesis
        by (simp add: poll_loop.simps [of os epollEvents nEvents i])
    next
      case inb: True
      let ?b = "pollEvents_body os (epollEvents ! i) w"
      have rec: "poll_loop os epollEvents nEvents (i + 1) (events @ [fst ?b]) (snd ?b) = Inr (evs, w')"
        using True inb "1.prems" by (simp add: poll_loop.simps [of os epollEvents nEvents i])
      note ih = "1.IH" [OF True inb rec]
      have lt: "i < nat nEvents" using True by simp
      have step: "take (nat nEvents - i) (drop i epollEvents)
                    = epollEvents ! i # take (nat nEvents - Suc i) (drop (Suc i) epollEvents)"
        by (rule take_drop_step [OF inb lt])
      show ?thesis
        using ih by (simp add: step)
    qed
  qed
qed

text \<open>A count within the array never panics.\<close>

lemma poll_loop_total:
  "nat n \<le> length buf \<Longrightarrow> \<exists>evs w'. poll_loop os buf n i acc w = Inr (evs, w')"
proof (induction os buf n i acc w rule: poll_loop.induct)
  case (1 os epollEvents nEvents i events w)
  show ?case
  proof (cases "int i < nEvents")
    case False
    then show ?thesis by (simp add: poll_loop.simps [of os epollEvents nEvents i])
  next
    case True
    then have inb: "i < length epollEvents" using "1.prems" by simp
    show ?thesis
      using "1.IH" [OF True inb "1.prems"] True inb
      by (simp add: poll_loop.simps [of os epollEvents nEvents i])
  qed
qed

lemma stored_over_take:
  "nat n \<le> length stored \<Longrightarrow> nat n \<le> length buf \<Longrightarrow>
     take (nat n) (stored_over buf stored) = take (nat n) stored"
  by (simp add: stored_over_def min_def)

lemma stored_over_prefix:
  "length stored \<le> length buf \<Longrightarrow> take (length stored) (stored_over buf stored) = stored"
  by (simp add: stored_over_def)

lemma length_stored_over: "length (stored_over buf stored) = length buf"
  by (simp add: stored_over_def)

lemma pollEvents_success_cases:
  assumes "pollEvents os pollerFd t w = Inr ((events, None), w')"
      and "EpollWait os pollerFd maxEpollEvents (timeoutMS (IntSize os) t) w = ((stored, n, err), w1)"
  shows "(err = Some (Errno EINTR) \<and> events = [] \<and> w' = w1)
       \<or> (err = None \<and> 0 \<le> n \<and>
           poll_loop os (stored_over (replicate maxEpollEvents zeroEpollEvent) stored) n 0 [] w1
             = Inr (events, w'))"
  using assms
  by (auto simp: pollEvents_def NewSyscallError_def split: if_splits sum.splits option.splits)

text \<open>So every event of a successful wait is the body's event for one entry the kernel
  reported, in the kernel's order.\<close>

lemma pollEvents_bodies:
  assumes "pollEvents os pollerFd t w = Inr ((events, None), w')"
      and "EpollWait os pollerFd maxEpollEvents (timeoutMS (IntSize os) t) w = ((stored, n, None), w1)"
  shows "events = fst (bodies os (take (nat n)
                    (stored_over (replicate maxEpollEvents zeroEpollEvent) stored)) w1)"
proof -
  have "poll_loop os (stored_over (replicate maxEpollEvents zeroEpollEvent) stored) n 0 [] w1
          = Inr (events, w')"
    using pollEvents_success_cases [OF assms] by simp
  from poll_loop_bodies [OF this] show ?thesis by simp
qed

text \<open>A wait that answers a count within the array makes \<open>pollEvents\<close> return, with the
  events of the bodies.\<close>

lemma pollEvents_returns:
  assumes "EpollWait os pollerFd maxEpollEvents (timeoutMS (IntSize os) t) w = ((stored, n, None), w1)"
      and "0 \<le> n" and "nat n \<le> maxEpollEvents"
  shows "pollEvents os pollerFd t w
           = Inr ((fst (bodies os (take (nat n)
                     (stored_over (replicate maxEpollEvents zeroEpollEvent) stored)) w1), None),
                  snd (bodies os (take (nat n)
                     (stored_over (replicate maxEpollEvents zeroEpollEvent) stored)) w1))"
proof -
  let ?buf = "stored_over (replicate maxEpollEvents zeroEpollEvent) stored"
  have "nat n \<le> length ?buf" using assms(3) by (simp add: length_stored_over)
  from poll_loop_total [OF this, of os 0 "[]" w1]
  obtain evs w' where lp: "poll_loop os ?buf n 0 [] w1 = Inr (evs, w')" by blast
  from poll_loop_bodies [OF lp] have "evs = fst (bodies os (take (nat n) ?buf) w1)"
    and "w' = snd (bodies os (take (nat n) ?buf) w1)" by simp_all
  with lp assms(1,2) show ?thesis by (simp add: pollEvents_def case_prod_beta)
qed

lemma pollEvents_body_snd:
  "snd (pollEvents_body os raw w)
     = snd (GetsockoptInt os (sint (EpollEvent.Fd raw)) SOL_SOCKET SO_ERROR w)"
  by (simp add: pollEvents_body_def Let_def split: prod.splits)

lemma pollEvents_body_spec:
  assumes "\<And>v e w'. GetsockoptInt os (sint (EpollEvent.Fd raw)) SOL_SOCKET SO_ERROR w
                         = ((v, Some e), w') \<Longrightarrow> v = 0"
  shows "pollEvents_body os raw w = spec_translate os (sint (EpollEvent.Fd raw)) w"
proof -
  obtain v rerr w' where g: "GetsockoptInt os (sint (EpollEvent.Fd raw)) SOL_SOCKET SO_ERROR w
                               = ((v, rerr), w')"
    by (metis surj_pair)
  show ?thesis
  proof (cases rerr)
    case None
    with g show ?thesis
      by (simp add: pollEvents_body_eq [OF g] spec_translate_def NewSyscallError_def)
  next
    case (Some e)
    with g assms have "v = 0" by blast
    with g Some show ?thesis
      by (simp add: pollEvents_body_eq [OF g] spec_translate_def NewSyscallError_def)
  qed
qed

lemma bodies_spec:
  assumes "\<And>fd w v e w'. GetsockoptInt os fd SOL_SOCKET SO_ERROR w = ((v, Some e), w') \<Longrightarrow> v = 0"
  shows "bodies os raws w = spec_translate_all os (map (\<lambda>e. sint (EpollEvent.Fd e)) raws) w"
proof (induction raws arbitrary: w)
  case Nil
  show ?case by simp
next
  case (Cons raw raws)
  have b: "pollEvents_body os raw w = spec_translate os (sint (EpollEvent.Fd raw)) w"
    by (rule pollEvents_body_spec) (rule assms)
  show ?case by (simp add: b Cons.IH)
qed

lemma bodies_length: "length (fst (bodies os raws w)) = length raws"
  by (induction raws arbitrary: w) simp_all

lemma bodies_nth:
  "i < length raws \<Longrightarrow>
     fst (bodies os raws w) ! i
       = fst (pollEvents_body os (raws ! i)
                (after_reads os (map (\<lambda>e. sint (EpollEvent.Fd e)) (take i raws)) w))"
proof (induction raws arbitrary: i w)
  case Nil
  then show ?case by simp
next
  case (Cons raw raws)
  show ?case
  proof (cases i)
    case 0
    then show ?thesis by simp
  next
    case (Suc j)
    with Cons.prems have "j < length raws" by simp
    from Cons.IH [OF this] Suc show ?thesis
      by (simp add: pollEvents_body_snd)
  qed
qed

text \<open>The loop consults the kernel through the reads of the pending error only.\<close>

lemma poll_loop_cong:
  "GetsockoptInt os' = GetsockoptInt os \<Longrightarrow>
     poll_loop os' buf n i acc w = poll_loop os buf n i acc w"
proof (induction os buf n i acc w rule: poll_loop.induct)
  case (1 os epollEvents nEvents i events w)
  have b: "\<And>raw. pollEvents_body os' raw w = pollEvents_body os raw w"
    using "1.prems" by (simp add: pollEvents_body_def)
  show ?case
  proof (cases "int i < nEvents \<and> i < length epollEvents")
    case True
    then have a: "int i < nEvents" and c: "i < length epollEvents" by simp_all
    show ?thesis
      using "1.IH" [OF a c "1.prems"] a c
      by (simp add: poll_loop.simps [of os epollEvents nEvents i]
            poll_loop.simps [of os' epollEvents nEvents i] b)
  next
    case False
    then show ?thesis
      by (auto simp: poll_loop.simps [of os epollEvents nEvents i]
            poll_loop.simps [of os' epollEvents nEvents i])
  qed
qed

text \<open>On the recording kernel \<open>pollEvents\<close> returns no event and leaves one more bound
  written down: the one the kernel read from the argument of the wait.\<close>

lemma pollEvents_recorder:
  "pollEvents (recorder bits) pollerFd t waits
     = Inr (([], None), c_int (timeoutMS bits t) # waits)"
  by (simp add: pollEvents_def recorder_def poll_loop.simps)

subsection \<open>The descriptor table of the reference kernel\<close>

lemma lookup_faults [simp]: "lookup (k\<lparr>faults := fs\<rparr>) fd = lookup k fd"
  by (simp add: lookup_def)

lemma lookup_next_fault [simp]: "lookup (snd (next_fault k)) fd = lookup k fd"
  by (simp add: next_fault_def split: list.splits)

lemma lookup_next_fault': "next_fault k = (r, k1) \<Longrightarrow> lookup k1 fd = lookup k fd"
  using lookup_next_fault [of k fd] by simp

lemma lookup_store:
  "lookup k fd \<noteq> None \<Longrightarrow> lookup (store k fd x) fd' = (if fd' = fd then x else lookup k fd')"
  by (auto simp: lookup_def store_def split: if_splits)

lemma lookup_negative [simp]: "lookup k (- 1) = None"
  by (simp add: lookup_def)

lemma first_free_le: "first_free t \<le> length t"
  by (induction t rule: first_free.induct) simp_all

lemma first_free_None: "first_free t < length t \<Longrightarrow> t ! first_free t = None"
  by (induction t rule: first_free.induct) simp_all

text \<open>A new descriptor takes a slot that was free and touches no other.\<close>

lemma lookup_install:
  assumes "install k f = (fd, k')"
  shows "lookup k' n = (if n = fd then Some f else lookup k n)" and "lookup k fd = None"
proof -
  let ?t = "fdtable k"
  let ?m = "first_free ?t"
  have fd: "fd = int ?m" using assms by (simp add: install_def Let_def)
  show "lookup k fd = None"
    using first_free_None [of ?t] by (simp add: lookup_def fd)
  show "lookup k' n = (if n = fd then Some f else lookup k n)"
  proof (cases "?m < length ?t")
    case True
    then have "fdtable k' = ?t[?m := Some f]" using assms by (auto simp: install_def Let_def)
    with True show ?thesis by (auto simp: lookup_def fd nth_list_update)
  next
    case False
    then have m: "?m = length ?t" using first_free_le [of ?t] by simp
    from False have "fdtable k' = ?t @ [Some f]" using assms by (auto simp: install_def Let_def)
    then show ?thesis using m by (auto simp: lookup_def fd nth_append)
  qed
qed

lemma k_Socket_lookup:
  assumes "k_Socket d ty p k = ((fd, None), k1)"
  shows "lookup k1 n = (if n = fd then Some (new_socket d ty) else lookup k n)"
    and "lookup k fd = None"
proof -
  obtain r k0 where nf: "next_fault k = (r, k0)" by (cases "next_fault k")
  with assms have r: "r = None" by (cases r) (auto simp: k_Socket_def)
  with nf assms have i: "install k0 (new_socket d ty) = (fd, k1)"
    by (auto simp: k_Socket_def split: prod.splits)
  show "lookup k1 n = (if n = fd then Some (new_socket d ty) else lookup k n)"
    using lookup_install(1) [OF i] lookup_next_fault' [OF nf] by simp
  show "lookup k fd = None"
    using lookup_install(2) [OF i] lookup_next_fault' [OF nf] by simp
qed

lemma k_Socket_fail:
  assumes "k_Socket d ty p k = ((fd, Some e), k1)"
  shows "fd = - 1 \<and> lookup k1 n = lookup k n"
proof -
  obtain r k0 where nf: "next_fault k = (r, k0)" by (cases "next_fault k")
  with assms show ?thesis
    using lookup_next_fault' [OF nf]
    by (cases r) (auto simp: k_Socket_def split: prod.splits)
qed

lemma k_CloseOnExec_lookup:
  "lookup (k_CloseOnExec fd k) n
     = (if n = fd then map_option (\<lambda>f. f\<lparr>cloexec := True\<rparr>) (lookup k fd) else lookup k n)"
  by (cases "lookup k fd") (simp_all add: k_CloseOnExec_def lookup_store)

lemma k_SetNonblock_lookup:
  assumes "k_SetNonblock fd nb k = (r, k1)"
  shows "lookup k1 n = (if n = fd \<and> r = None
                        then map_option (\<lambda>f. f\<lparr>nonblock := nb\<rparr>) (lookup k fd)
                        else lookup k n)"
proof -
  obtain q k0 where nf: "next_fault k = (q, k0)" by (cases "next_fault k")
  note l = lookup_next_fault' [OF nf]
  show ?thesis
  proof (cases "q = None \<and> lookup k fd \<noteq> None")
    case True
    then obtain f where f: "lookup k0 fd = Some f" using l by auto
    then have "lookup k0 fd \<noteq> None" by simp
    from lookup_store [OF this] f True nf assms l show ?thesis
      by (auto simp: k_SetNonblock_def)
  next
    case False
    with nf assms l show ?thesis
      by (cases q; cases "lookup k fd") (auto simp: k_SetNonblock_def)
  qed
qed

lemma k_SetsockoptInt_lookup:
  assumes "k_SetsockoptInt fd IPPROTO_TCP TCP_QUICKACK v k = (r, k1)"
  shows "lookup k1 n = (if n = fd \<and> r = None
                        then map_option (\<lambda>f. case obj f of
                               Sock s \<Rightarrow> f\<lparr>obj := Sock (s\<lparr>quickack := (v \<noteq> 0)\<rparr>)\<rparr>
                             | Epoll ep \<Rightarrow> f) (lookup k fd)
                        else lookup k n)"
proof -
  obtain q k0 where nf: "next_fault k = (q, k0)" by (cases "next_fault k")
  note l = lookup_next_fault' [OF nf]
  show ?thesis
  proof (cases "q = None \<and> lookup k fd \<noteq> None")
    case True
    then obtain f where f: "lookup k0 fd = Some f" using l by auto
    then have "lookup k0 fd \<noteq> None" by simp
    from lookup_store [OF this] f True nf assms l show ?thesis
      by (cases "obj f") (auto simp: k_SetsockoptInt_def)
  next
    case False
    with nf assms l show ?thesis
      by (cases q; cases "lookup k fd") (auto simp: k_SetsockoptInt_def)
  qed
qed

lemma k_SetsockoptLinger_lookup:
  assumes "k_SetsockoptLinger fd SOL_SOCKET SO_LINGER lg k = (r, k1)"
  shows "lookup k1 n = (if n = fd \<and> r = None
                        then map_option (\<lambda>f. case obj f of
                               Sock s \<Rightarrow> f\<lparr>obj := Sock (s\<lparr>linger := Some lg\<rparr>)\<rparr>
                             | Epoll ep \<Rightarrow> f) (lookup k fd)
                        else lookup k n)"
proof -
  obtain q k0 where nf: "next_fault k = (q, k0)" by (cases "next_fault k")
  note l = lookup_next_fault' [OF nf]
  show ?thesis
  proof (cases "q = None \<and> lookup k fd \<noteq> None")
    case True
    then obtain f where f: "lookup k0 fd = Some f" using l by auto
    then have "lookup k0 fd \<noteq> None" by simp
    from lookup_store [OF this] f True nf assms l show ?thesis
      by (cases "obj f") (auto simp: k_SetsockoptLinger_def)
  next
    case False
    with nf assms l show ?thesis
      by (cases q; cases "lookup k fd") (auto simp: k_SetsockoptLinger_def)
  qed
qed

lemma k_Close_lookup:
  "lookup (snd (k_Close fd k)) n = (if n = fd then None else lookup k n)"
  by (cases "lookup k fd") (simp_all add: k_Close_def lookup_store)

subsection \<open>Socket creation on the reference kernel\<close>

lemma createSocket_lookup:
  assumes "createSocket linux fam k = ((fd, err), k1)"
  shows "err = None \<Longrightarrow>
           lookup k1 n = (if n = fd then Some ((new_socket fam SOCK_STREAM)\<lparr>cloexec := True\<rparr>)
                          else lookup k n)"
    and "err = None \<Longrightarrow> lookup k fd = None"
    and "err \<noteq> None \<Longrightarrow> lookup k1 n = lookup k n"
proof -
  obtain k0 where s: "k_Socket fam SOCK_STREAM 0 k = ((fd, err), k0)"
    and c: "k1 = k_CloseOnExec fd k0"
    using assms by (auto simp: createSocket_def linux_def Let_def split: prod.splits)
  show "err = None \<Longrightarrow>
           lookup k1 n = (if n = fd then Some ((new_socket fam SOCK_STREAM)\<lparr>cloexec := True\<rparr>)
                          else lookup k n)"
    using k_Socket_lookup(1) [of fam SOCK_STREAM 0 k fd k0] s c
    by (simp add: k_CloseOnExec_lookup)
  show "err = None \<Longrightarrow> lookup k fd = None"
    using k_Socket_lookup(2) [of fam SOCK_STREAM 0 k fd k0] s by simp
  show "err \<noteq> None \<Longrightarrow> lookup k1 n = lookup k n"
    using k_Socket_fail [of fam SOCK_STREAM 0 k fd _ k0] s c
    by (auto simp: k_CloseOnExec_lookup)
qed

lemma setSockOpts_lookup:
  assumes "setSockOpts linux fd k = (r, k2)"
  shows "n \<noteq> fd \<Longrightarrow> lookup k2 n = lookup k n"
    and "r = None \<Longrightarrow> lookup k fd = Some f \<Longrightarrow> obj f = Sock s \<Longrightarrow>
           lookup k2 fd = Some (f\<lparr>nonblock := True, obj := Sock (s\<lparr>quickack := False\<rparr>)\<rparr>)"
proof -
  obtain r1 k1 where nb: "k_SetNonblock fd True k = (r1, k1)" by (cases "k_SetNonblock fd True k")
  note l1 = k_SetNonblock_lookup [OF nb]
  show "n \<noteq> fd \<Longrightarrow> lookup k2 n = lookup k n"
  proof (cases r1)
    case (Some e)
    with nb assms l1 show "n \<noteq> fd \<Longrightarrow> lookup k2 n = lookup k n"
      by (auto simp: setSockOpts_def linux_def)
  next
    case None
    with nb assms have q: "k_SetsockoptInt fd IPPROTO_TCP TCP_QUICKACK 0 k1 = (r, k2)"
      by (auto simp: setSockOpts_def linux_def)
    show "n \<noteq> fd \<Longrightarrow> lookup k2 n = lookup k n"
      using k_SetsockoptInt_lookup [OF q, of n] l1 [of n] by simp
  qed
  show "r = None \<Longrightarrow> lookup k fd = Some f \<Longrightarrow> obj f = Sock s \<Longrightarrow>
           lookup k2 fd = Some (f\<lparr>nonblock := True, obj := Sock (s\<lparr>quickack := False\<rparr>)\<rparr>)"
  proof -
    assume r: "r = None" and f: "lookup k fd = Some f" and o: "obj f = Sock s"
    have r1: "r1 = None"
      using nb assms r by (cases r1) (auto simp: setSockOpts_def linux_def)
    with nb assms have q: "k_SetsockoptInt fd IPPROTO_TCP TCP_QUICKACK 0 k1 = (r, k2)"
      by (auto simp: setSockOpts_def linux_def)
    show ?thesis
      using k_SetsockoptInt_lookup [OF q, of fd] l1 [of fd] r r1 f o by simp
  qed
qed

text \<open>The sibling path: when \<open>createNonBlockingSocket\<close> fails, at whatever step, the
  descriptor table is as it was before the call; when it succeeds, one descriptor is new.\<close>

lemma createNonBlockingSocket_lookup:
  assumes "createNonBlockingSocket linux fam k = ((fd, err), k')"
  shows "err = None \<Longrightarrow> lookup k' n = (if n = fd then Some (ready_socket fam False) else lookup k n)"
    and "err \<noteq> None \<Longrightarrow> lookup k' n = lookup k n"
    and "err = None \<Longrightarrow> lookup k fd = None"
proof -
  obtain fd0 e0 k1 where cs: "createSocket linux fam k = ((fd0, e0), k1)"
    by (metis surj_pair)
  note c = createSocket_lookup [OF cs]
  show "err = None \<Longrightarrow> lookup k fd = None"
  proof -
    assume e: "err = None"
    have e0: "e0 = None"
      using cs assms e by (cases e0) (auto simp: createNonBlockingSocket_def)
    have "fd = fd0"
      using cs assms e e0
      by (auto simp: createNonBlockingSocket_def split: prod.splits if_splits)
    then show ?thesis using c(2) [OF e0] by simp
  qed
  show "err = None \<Longrightarrow> lookup k' n = (if n = fd then Some (ready_socket fam False) else lookup k n)"
  proof -
    assume e: "err = None"
    have e0: "e0 = None"
      using cs assms e by (cases e0) (auto simp: createNonBlockingSocket_def)
    obtain r k2 where so: "setSockOpts linux fd0 k1 = (r, k2)" by (cases "setSockOpts linux fd0 k1")
    have r: "r = None" and fd: "fd = fd0" and k': "k' = k2"
      using cs assms e e0 so
      by (auto simp: createNonBlockingSocket_def split: prod.splits if_splits)
    have f: "lookup k1 fd0 = Some ((new_socket fam SOCK_STREAM)\<lparr>cloexec := True\<rparr>)"
      using c(1) [OF e0, of fd0] by simp
    have o: "obj ((new_socket fam SOCK_STREAM)\<lparr>cloexec := True\<rparr>)
               = Sock \<lparr>family = fam, sotype = SOCK_STREAM, quickack = True, linger = None, so_error = 0\<rparr>"
      by (simp add: new_socket_def)
    show ?thesis
    proof (cases "n = fd")
      case True
      then show ?thesis
        using setSockOpts_lookup(2) [OF so r f o] fd k'
        by (simp add: ready_socket_def new_socket_def)
    next
      case False
      then show ?thesis
        using setSockOpts_lookup(1) [OF so, of n] c(1) [OF e0, of n] fd k' by simp
    qed
  qed
  show "err \<noteq> None \<Longrightarrow> lookup k' n = lookup k n"
  proof -
    assume e: "err \<noteq> None"
    show ?thesis
    proof (cases e0)
      case (Some x)
      then have "k' = k1" using cs assms by (auto simp: createNonBlockingSocket_def)
      then show ?thesis using c(3) [of n] Some by simp
    next
      case None
      obtain r k2 where so: "setSockOpts linux fd0 k1 = (r, k2)" by (cases "setSockOpts linux fd0 k1")
      have r: "r \<noteq> None" and k': "k' = snd (k_Close fd0 k2)"
        using cs assms e None so
        by (auto simp: createNonBlockingSocket_def linux_def split: prod.splits if_splits)
      show ?thesis
      proof (cases "n = fd0")
        case True
        then show ?thesis using k' c(2) [OF None] by (simp add: k_Close_lookup)
      next
        case False
        then show ?thesis
          using k' setSockOpts_lookup(1) [OF so, of n] c(1) [OF None, of n]
          by (simp add: k_Close_lookup)
      qed
    qed
  qed
qed

text \<open>Without zero-linger no failure of \<open>createSocketZeroLinger\<close> leaves a descriptor behind.\<close>

lemma createSocketZeroLinger_keeps_table:
  assumes "createSocketZeroLinger linux fam False k = ((fd, Some e), k')"
  shows "lookup k' n = lookup k n"
proof -
  obtain fd0 e0 k1 where cn: "createNonBlockingSocket linux fam k = ((fd0, e0), k1)"
    by (metis surj_pair)
  then have "e0 = Some e" and "k' = k1"
    using assms by (auto simp: createSocketZeroLinger_def split: if_splits)
  then show ?thesis using createNonBlockingSocket_lookup(2) [OF cn, of n] by simp
qed

text \<open>With zero-linger, a failure of the last step returns the error and leaves the new
  descriptor open: it was not open before the call and is open after it.\<close>

lemma createSocketZeroLinger_linger_failure:
  assumes "createNonBlockingSocket linux fam k = ((fd0, None), k1)"
      and "createSocketZeroLinger linux fam True k = ((fd, Some e), k')"
  shows "fd = fd0 \<and> lookup k fd = None \<and> lookup k' fd = Some (ready_socket fam False)"
proof -
  have l: "k_SetsockoptLinger fd0 SOL_SOCKET SO_LINGER zeroLinger k1 = (Some e, k')" and fd: "fd = fd0"
    using assms by (auto simp: createSocketZeroLinger_def setZeroLinger_def linux_def split: prod.splits)
  have "lookup k' fd0 = lookup k1 fd0"
    using k_SetsockoptLinger_lookup [OF l, of fd0] by simp
  then show ?thesis
    using createNonBlockingSocket_lookup(1) [OF assms(1), of fd0]
      createNonBlockingSocket_lookup(3) [OF assms(1)] fd by simp
qed

subsection \<open>The poller on the reference kernel\<close>

lemma ready_of_GetsockoptInt:
  "ready_of (snd (k_GetsockoptInt fd level opt k)) pfd = ready_of k pfd"
proof -
  obtain r k1 where nf: "next_fault k = (r, k1)" by (cases "next_fault k")
  have l1: "\<And>x. lookup k1 x = lookup k x"
    using lookup_next_fault [of k] nf by simp
  show ?thesis
  proof (cases r)
    case (Some e)
    with nf l1 show ?thesis by (simp add: k_GetsockoptInt_def ready_of_def)
  next
    case None
    show ?thesis
    proof (cases "lookup k fd")
      case n: None
      with nf None l1 show ?thesis by (simp add: k_GetsockoptInt_def ready_of_def)
    next
      case (Some f)
      then have op: "lookup k1 fd \<noteq> None" using l1 by simp
      show ?thesis
      proof (cases "obj f")
        case (Epoll ep)
        with nf None Some l1 show ?thesis by (simp add: k_GetsockoptInt_def ready_of_def)
      next
        case (Sock s)
        with nf None Some l1 lookup_store [OF op] show ?thesis
          by (simp add: k_GetsockoptInt_def ready_of_def)
      qed
    qed
  qed
qed

lemma ready_of_body:
  "ready_of (snd (pollEvents_body linux raw k)) pfd = ready_of k pfd"
proof -
  have "snd (pollEvents_body linux raw k)
          = snd (k_GetsockoptInt (sint (EpollEvent.Fd raw)) SOL_SOCKET SO_ERROR k)"
    by (simp add: pollEvents_body_def linux_def Let_def split: prod.splits)
  then show ?thesis by (simp add: ready_of_GetsockoptInt)
qed

lemma ready_of_poll_loop:
  "poll_loop linux buf n i acc k = Inr (evs, k') \<Longrightarrow> ready_of k' pfd = ready_of k pfd"
proof (induction linux buf n i acc k rule: poll_loop.induct)
  case (1 epollEvents nEvents i events w)
  show ?case
  proof (cases "int i < nEvents \<and> i < length epollEvents")
    case True
    then have rec: "poll_loop linux epollEvents nEvents (i + 1)
                      (events @ [fst (pollEvents_body linux (epollEvents ! i) w)])
                      (snd (pollEvents_body linux (epollEvents ! i) w)) = Inr (evs, k')"
      using "1.prems" by (simp add: poll_loop.simps [of linux epollEvents nEvents i])
    from True have a: "int i < nEvents" and b: "i < length epollEvents" by simp_all
    show ?thesis
      using "1.hyps" [OF a b rec] by (simp add: ready_of_body)
  next
    case False
    with "1.prems" show ?thesis
      by (auto simp: poll_loop.simps [of linux epollEvents nEvents i] split: if_splits)
  qed
qed

text \<open>A read of the pending error that fails answers zero, and a wait that succeeds counts
  what it stored, within the length it was given.\<close>

lemma k_GetsockoptInt_failure_zero:
  "k_GetsockoptInt fd level opt k = ((v, Some e), k') \<Longrightarrow> v = 0"
  by (auto simp: k_GetsockoptInt_def split: prod.splits option.splits object.splits if_splits)

lemma k_EpollWait_count:
  "k_EpollWait epfd len ms k = ((stored, n, None), k1) \<Longrightarrow>
     n = int (length stored) \<and> length stored \<le> len"
  by (auto simp: k_EpollWait_def split: prod.splits option.splits object.splits if_splits)

lemma k_EpollWait_delivers:
  assumes "lookup k pollerFd = Some ef" and "obj ef = Epoll ep"
      and "faults k = [] \<or> hd (faults k) = 0"
  shows "\<exists>k1. EpollWait linux pollerFd maxEpollEvents ms k
                = ((take maxEpollEvents (ready ep),
                    int (length (take maxEpollEvents (ready ep))), None), k1)
              \<and> ready_of k1 pollerFd = drop maxEpollEvents (ready ep)"
proof -
  obtain k1 where nf: "next_fault k = (None, k1)"
    using assms(3) by (cases "faults k") (auto simp: next_fault_def errnoErr_def)
  have l1: "\<And>x. lookup k1 x = lookup k x"
    using lookup_next_fault [of k] nf by simp
  have op: "lookup k1 pollerFd \<noteq> None" using l1 assms(1) by simp
  show ?thesis
    using nf l1 assms(1,2) lookup_store [OF op]
    by (simp add: linux_def k_EpollWait_def ready_of_def maxEpollEvents_def)
qed

section \<open>Evaluated examples\<close>

text \<open>Concrete runs on the reference kernel, computed by rewriting.\<close>

lemmas kernel_defs = linux_def k_Socket_def k_CloseOnExec_def k_SetNonblock_def
  k_SetsockoptInt_def k_SetsockoptLinger_def k_Close_def k_EpollCreate1_def k_EpollCtl_def
  k_EpollWait_def k_GetsockoptInt_def k_Connect_def next_fault_def errnoErr_def lookup_def
  store_def install_def new_socket_def

lemmas example_defs = poller_kernel_def poller_file_def poller_epoll_def empty_kernel_def
  waited_kernel_def
  pending_socket_def ready_socket_def ready_event_def zeroLinger_def
lemma show_int_digits: "show_int 0 = ''0''" "show_int 1 = ''1''" "show_int 3 = ''3''" "show_int 7 = ''7''"
  "show_int (- 12) = ''-12''"
  by (simp_all add: show_int_def show_nat.simps digit_char_def)

lemma Connect_linux_fault:
  "e \<noteq> 0 \<Longrightarrow> Connect linux fd a (poller_kernel errs (e # fs))
                = (Some (Errno e), poller_kernel errs fs)"
  by (simp add: linux_def k_Connect_def next_fault_def errnoErr_def poller_kernel_def)

lemma Connect_linux_ok:
  "Connect linux 1 a (poller_kernel [0] []) = (None, poller_kernel [0] [])"
  by (simp add: linux_def k_Connect_def next_fault_def errnoErr_def poller_kernel_def lookup_def
        pending_socket_def)

lemma create_on_empty:
  "createSocketZeroLinger linux AF_INET zl (empty_kernel [])
     = ((0, None), \<lparr>fdtable = [Some (ready_socket AF_INET zl)], faults = []\<rparr>)"
  by (simp add: createSocketZeroLinger_def createNonBlockingSocket_def createSocket_def
        setSockOpts_def setZeroLinger_def kernel_defs example_defs const_defs)

lemma sint_ready_event_1: "sint (EpollEvent.Fd (ready_event 1)) = 1"
  by (simp add: ready_event_def)

lemma read_failed:
  "GetsockoptInt linux 1 SOL_SOCKET SO_ERROR (poller_kernel [0] [EBADF])
     = ((0, Some (Errno EBADF)), poller_kernel [0] [])"
  by (simp add: kernel_defs example_defs errno_defs)

lemma read_failed_event:
  "GetsockoptInt linux (sint (EpollEvent.Fd (ready_event 1))) SOL_SOCKET SO_ERROR
       (poller_kernel [0] [EBADF])
     = ((0, Some (Errno EBADF)), poller_kernel [0] [])"
  unfolding sint_ready_event_1 by (rule read_failed)

lemma wait_fault:
  "e \<noteq> 0 \<Longrightarrow> EpollWait linux pfd len ms (poller_kernel errs (e # fs))
                = (([], - 1, Some (Errno e)), poller_kernel errs fs)"
  by (simp add: linux_def k_EpollWait_def next_fault_def errnoErr_def poller_kernel_def)

lemma createPoller_fault:
  "createPoller linux (empty_kernel [EMFILE])
     = ((- 1, Some (SyscallError ''epoll_create1'' (Errno EMFILE))), empty_kernel [])"
  by (simp add: createPoller_def kernel_defs example_defs NewSyscallError_def errno_defs)

lemma registerEvents_twice:
  "registerEvents linux 0 1 (poller_kernel [0] [])
     = (Some (SyscallError ''epoll_ctl(0, ADD, 1, ...)'' (Errno EEXIST)), poller_kernel [0] [])"
  by (simp add: registerEvents_def kernel_defs example_defs NewSyscallError_def show_int_digits)

lemma pollEvents_fault:
  "pollEvents linux 0 0 (poller_kernel [0] [EBADF])
     = Inr (([], Some (SyscallError ''epoll_wait'' (Errno EBADF))), poller_kernel [0] [])"
  by (simp add: pollEvents_def wait_fault NewSyscallError_def errno_defs)

lemma resolve_examples:
  "ResolveTCPAddr go_net ''tcp'' ''127.0.0.1:80''
     = Inr \<lparr>IP = [0, 0, 0, 0, 0, 0, 0, 0, 0, 0, 255, 255, 127, 0, 0, 1], Port = 80, Zone = []\<rparr>"
  "ResolveTCPAddr go_net ''tcp'' ''[::1]:80''
     = Inr \<lparr>IP = [0, 0, 0, 0, 0, 0, 0, 0, 0, 0, 0, 0, 0, 0, 0, 1], Port = 80, Zone = []\<rparr>"
  "ResolveTCPAddr go_net ''tcp'' '':80'' = Inr \<lparr>IP = [], Port = 80, Zone = []\<rparr>"
  "ResolveTCPAddr go_net ''tcp'' ''not-an-address''
     = Inl (AddrError ''missing port in address'' ''not-an-address'')"
  by (simp_all add: go_net_def example_resolver_def v4InV6Prefix_def)

lemma To4_examples:
  "To4 go_net [0, 0, 0, 0, 0, 0, 0, 0, 0, 0, 255, 255, 127, 0, 0, 1] = Some [127, 0, 0, 1]"
  "To4 go_net [0, 0, 0, 0, 0, 0, 0, 0, 0, 0, 0, 0, 0, 0, 0, 1] = None"
  "To4 go_net [] = None"
  by (simp_all add: go_net_def go_To4_def v4InV6Prefix_def)

lemma To16_examples:
  "To16 go_net [0, 0, 0, 0, 0, 0, 0, 0, 0, 0, 0, 0, 0, 0, 0, 1]
     = Some [0, 0, 0, 0, 0, 0, 0, 0, 0, 0, 0, 0, 0, 0, 0, 1]"
  "To16 go_net [] = None"
  by (simp_all add: go_net_def go_To16_def)

lemma copy_bytes_examples:
  "copy_bytes 4 [127, 0, 0, 1] = [127, 0, 0, 1]"
  "copy_bytes 16 [0, 0, 0, 0, 0, 0, 0, 0, 0, 0, 0, 0, 0, 0, 0, 1]
     = [0, 0, 0, 0, 0, 0, 0, 0, 0, 0, 0, 0, 0, 0, 0, 1]"
  by (simp_all add: copy_bytes_def)

lemma upt_33: "[1..<33] = [1,2,3,4,5,6,7,8,9,10,11,12,13,14,15,16,17,18,19,20,21,22,23,24,25,26,27,28,
    29,30,31,32::nat]"
  by (simp add: upt_rec)

lemma take_33: "take 32 (map ready_event [1..<34]) = map ready_event [1..<33]"
  by (simp add: take_map)

lemma fds_33:
  "map (\<lambda>e. sint (EpollEvent.Fd e)) (take 32 (map ready_event [1..<34]))
     = [1,2,3,4,5,6,7,8,9,10,11,12,13,14,15,16,17,18,19,20,21,22,23,24,25,26,27,28,29,30,31,32]"
  unfolding take_33 upt_33 by (simp add: ready_event_def)

lemma rest_33: "drop 32 (map ready_event [1..<34]) = [ready_event 33]"
proof -
  have "[33..<34] = [33::nat]" by (simp add: upt_rec)
  then show ?thesis by (simp add: drop_map)
qed

lemma wait_poller:
  assumes "length errs \<le> maxEpollEvents"
  shows "EpollWait linux 0 maxEpollEvents ms (poller_kernel errs (0 # fs))
     = ((ready (poller_epoll (length errs)), int (length errs), None), waited_kernel errs fs)"
  using assms
  by (cases errs)
     (auto simp: Suc_le_eq linux_def k_EpollWait_def next_fault_def errnoErr_def lookup_def store_def
        poller_kernel_def poller_file_def poller_epoll_def waited_kernel_def maxEpollEvents_def)

lemma upt_123: "[1..<3 + 1] = [1, 2, 3::nat]" "[1..<1 + 1] = [1::nat]"
  by (simp_all add: upt_rec)

lemma ready_three: "ready (poller_epoll 3) = [ready_event 1, ready_event 2, ready_event 3]"
  unfolding poller_epoll_def by (simp only: epoll.simps upt_123 list.map)

lemma ready_one: "ready (poller_epoll 1) = [ready_event 1]"
  unfolding poller_epoll_def by (simp only: epoll.simps upt_123 list.map)

lemma wait_three:
  "EpollWait linux 0 maxEpollEvents ms (poller_kernel [111, 0, 0] [0, 0, 0, EBADF])
     = (([ready_event 1, ready_event 2, ready_event 3], 3, None),
        waited_kernel [111, 0, 0] [0, 0, EBADF])"
proof -
  have l: "length [111, 0, 0 :: int] = 3" by simp
  have "length [111, 0, 0 :: int] \<le> maxEpollEvents" by (simp add: maxEpollEvents_def)
  from wait_poller [OF this, of ms "[0, 0, EBADF]"] show ?thesis
    unfolding l ready_three by simp
qed

lemma sint_ready_events:
  "sint (EpollEvent.Fd (ready_event 1)) = 1" "sint (EpollEvent.Fd (ready_event 2)) = 2"
  "sint (EpollEvent.Fd (ready_event 3)) = 3"
  by (simp_all add: ready_event_def)

lemma fds_three:
  "map (\<lambda>e. sint (EpollEvent.Fd e)) [ready_event 1, ready_event 2, ready_event 3] = [1, 2, 3]"
  by (simp only: list.map sint_ready_events)

lemma read_1:
  "GetsockoptInt linux 1 SOL_SOCKET SO_ERROR (waited_kernel [111, 0, 0] [0, 0, EBADF])
     = ((111, None), waited_kernel [0, 0, 0] [0, EBADF])"
  "GetsockoptInt linux 2 SOL_SOCKET SO_ERROR (waited_kernel [0, 0, 0] [0, EBADF])
     = ((0, None), waited_kernel [0, 0, 0] [EBADF])"
  "GetsockoptInt linux 3 SOL_SOCKET SO_ERROR (waited_kernel [0, 0, 0] [EBADF])
     = ((0, Some (Errno EBADF)), waited_kernel [0, 0, 0] [])"
  by (simp_all add: linux_def k_GetsockoptInt_def next_fault_def errnoErr_def
        lookup_def store_def waited_kernel_def pending_socket_def errno_defs)

lemma translate_1:
  "spec_translate linux 1 (waited_kernel [111, 0, 0] [0, 0, EBADF])
     = (\<lparr>Fd = 1, Err = Some (ErrConnect 111)\<rparr>, waited_kernel [0, 0, 0] [0, EBADF])"
  "spec_translate linux 2 (waited_kernel [0, 0, 0] [0, EBADF])
     = (\<lparr>Fd = 2, Err = None\<rparr>, waited_kernel [0, 0, 0] [EBADF])"
  "spec_translate linux 3 (waited_kernel [0, 0, 0] [EBADF])
     = (\<lparr>Fd = 3, Err = Some (SyscallError ''getsockopt'' (Errno EBADF))\<rparr>,
        waited_kernel [0, 0, 0] [])"
  by (simp_all add: spec_translate_def read_1 newErrConnect_def)

lemma translate_three:
  "spec_translate_all linux [1, 2, 3] (waited_kernel [111, 0, 0] [0, 0, EBADF])
     = ([\<lparr>Fd = 1, Err = Some (ErrConnect 111)\<rparr>, \<lparr>Fd = 2, Err = None\<rparr>,
         \<lparr>Fd = 3, Err = Some (SyscallError ''getsockopt'' (Errno EBADF))\<rparr>],
        waited_kernel [0, 0, 0] [])"
  by (simp only: spec_translate_all.simps translate_1 fst_conv snd_conv)

lemma wait_one:
  "EpollWait linux 0 maxEpollEvents ms (poller_kernel [0] (0 # fs))
     = (([ready_event 1], 1, None), waited_kernel [0] fs)"
proof -
  have l: "length [0 :: int] = 1" by simp
  have "length [0 :: int] \<le> maxEpollEvents" by (simp add: maxEpollEvents_def)
  from wait_poller [OF this, of ms fs] show ?thesis
    unfolding l ready_one by simp
qed

lemma wait_one_both:
  "EpollWait value_and_error 0 maxEpollEvents ms (poller_kernel [0] [0])
     = (([ready_event 1], 1, None), waited_kernel [0] [])"
  using wait_one [of ms "[]"] by (simp add: value_and_error_def)

lemma fds_one:
  "map (\<lambda>e. sint (EpollEvent.Fd e))
     (take (nat 1) (stored_over (replicate maxEpollEvents zeroEpollEvent) [ready_event 1])) = [1]"
proof -
  have "take (length [ready_event 1])
          (stored_over (replicate maxEpollEvents zeroEpollEvent) [ready_event 1]) = [ready_event 1]"
    by (rule stored_over_prefix) (simp add: maxEpollEvents_def)
  then show ?thesis by (simp add: ready_event_def)
qed

lemma read_both:
  "GetsockoptInt value_and_error
     (map (\<lambda>e. sint (EpollEvent.Fd e))
        (take (nat 1) (stored_over (replicate maxEpollEvents zeroEpollEvent) [ready_event 1])) ! 0)
     SOL_SOCKET SO_ERROR
     (after_reads value_and_error
        (take 0 (map (\<lambda>e. sint (EpollEvent.Fd e))
           (take (nat 1) (stored_over (replicate maxEpollEvents zeroEpollEvent) [ready_event 1]))))
        (waited_kernel [0] []))
     = ((111, Some (Errno EBADF)), waited_kernel [0] [])"
  unfolding fds_one by (simp add: value_and_error_def errno_defs)

lemma read_fails_zero:
  "GetsockoptInt linux
     (map (\<lambda>e. sint (EpollEvent.Fd e))
        (take (nat 1) (stored_over (replicate maxEpollEvents zeroEpollEvent) [ready_event 1])) ! 0)
     SOL_SOCKET SO_ERROR
     (after_reads linux
        (take 0 (map (\<lambda>e. sint (EpollEvent.Fd e))
           (take (nat 1) (stored_over (replicate maxEpollEvents zeroEpollEvent) [ready_event 1]))))
        (waited_kernel [0] [EBADF]))
     = ((0, Some (Errno EBADF)), waited_kernel [0] [])"
  unfolding fds_one
  by (simp add: linux_def k_GetsockoptInt_def next_fault_def errnoErr_def waited_kernel_def
        errno_defs)

section \<open>The claims\<close>

subsection \<open>C1: classification of the connect result\<close>

text \<open>
  Claim C1. For every descriptor, address and kernel, \<open>connect\<close> classifies the raw result
  \<open>serr\<close> of the connect call: \<^verbatim>\<open>EALREADY\<close>, \<^verbatim>\<open>EINPROGRESS\<close> and \<^verbatim>\<open>EINTR\<close> give
  \<open>(False, nil)\<close>; no error and \<^verbatim>\<open>EISCONN\<close> give \<open>(True, nil)\<close>; \<^verbatim>\<open>EINVAL\<close> gives
  \<open>(True, nil)\<close> when the platform is Solaris and \<open>(False, EINVAL)\<close> on every other
  platform; every other error \<open>e\<close> gives \<open>(False, e)\<close>.
\<close>

theorem connect_classifies:
  assumes "Connect os fd addr w = (serr, w1)"
  shows "(serr \<in> {Some (Errno EALREADY), Some (Errno EINPROGRESS), Some (Errno EINTR)}
            \<longrightarrow> connect os goos fd addr w = ((False, None), w1))
       \<and> (serr \<in> {None, Some (Errno EISCONN)}
            \<longrightarrow> connect os goos fd addr w = ((True, None), w1))
       \<and> (serr = Some (Errno EINVAL) \<and> goos = ''solaris''
            \<longrightarrow> connect os goos fd addr w = ((True, None), w1))
       \<and> (serr = Some (Errno EINVAL) \<and> goos \<noteq> ''solaris''
            \<longrightarrow> connect os goos fd addr w = ((False, Some (Errno EINVAL)), w1))
       \<and> (serr \<notin> {Some (Errno EALREADY), Some (Errno EINPROGRESS), Some (Errno EINTR),
                    None, Some (Errno EISCONN), Some (Errno EINVAL)}
            \<longrightarrow> connect os goos fd addr w = ((False, serr), w1))"
  using assms by (simp add: connect_def errno_defs)

theorem connect_classifies_witness:
  "connect linux ''linux'' 1 (SockaddrInet4 80 [127, 0, 0, 1]) (poller_kernel [0] [EINPROGRESS])
     = ((False, None), poller_kernel [0] [])
 \<and> connect linux ''linux'' 1 (SockaddrInet4 80 [127, 0, 0, 1]) (poller_kernel [0] [])
     = ((True, None), poller_kernel [0] [])
 \<and> connect linux ''solaris'' 1 (SockaddrInet4 80 [127, 0, 0, 1]) (poller_kernel [0] [EINVAL])
     = ((True, None), poller_kernel [0] [])
 \<and> connect linux ''linux'' 1 (SockaddrInet4 80 [127, 0, 0, 1]) (poller_kernel [0] [EINVAL])
     = ((False, Some (Errno EINVAL)), poller_kernel [0] [])
 \<and> connect linux ''linux'' 1 (SockaddrInet4 80 [127, 0, 0, 1]) (poller_kernel [0] [ECONNREFUSED])
     = ((False, Some (Errno ECONNREFUSED)), poller_kernel [0] [])"
proof -
  let ?a = "SockaddrInet4 80 [127, 0, 0, 1]"
  have c1: "Connect linux 1 ?a (poller_kernel [0] [EINPROGRESS])
              = (Some (Errno EINPROGRESS), poller_kernel [0] [])"
    by (rule Connect_linux_fault) (simp add: errno_defs)
  have c2: "Connect linux 1 ?a (poller_kernel [0] []) = (None, poller_kernel [0] [])"
    by (rule Connect_linux_ok)
  have c3: "Connect linux 1 ?a (poller_kernel [0] [EINVAL])
              = (Some (Errno EINVAL), poller_kernel [0] [])"
    by (rule Connect_linux_fault) (simp add: errno_defs)
  have c4: "Connect linux 1 ?a (poller_kernel [0] [ECONNREFUSED])
              = (Some (Errno ECONNREFUSED), poller_kernel [0] [])"
    by (rule Connect_linux_fault) (simp add: errno_defs)
  show ?thesis
    using connect_classifies [OF c1, of "''linux''"] connect_classifies [OF c2, of "''linux''"]
      connect_classifies [OF c3, of "''solaris''"] connect_classifies [OF c3, of "''linux''"]
      connect_classifies [OF c4, of "''linux''"]
    by (simp add: errno_defs)
qed

subsection \<open>C2: the descriptor on the failure paths of socket creation\<close>

text \<open>
  Claim C2 says that a failure at any step after the raw socket exists (non-blocking,
  quick-ack, zero-linger) closes the descriptor before the error is returned. The sibling
  \<open>createNonBlockingSocket\<close> does so for its two steps (\<open>createNonBlockingSocket_lookup\<close>
  above), but \<open>createSocketZeroLinger\<close> returns the error of \<open>setZeroLinger\<close> without
  closing (\<open>createSocketZeroLinger_linger_failure\<close> above). The run below has the socket,
  non-blocking and quick-ack calls succeed and the zero-linger call fail with \<^verbatim>\<open>ENOBUFS\<close>:
  the error comes back and descriptor 0 is still open. With the failure one call earlier
  (quick-ack), descriptor 0 is closed.
\<close>

theorem createSocketZeroLinger_linger_failure_leaks:
  "createSocketZeroLinger linux AF_INET True (empty_kernel [0, 0, 0, ENOBUFS])
     = ((0, Some (Errno ENOBUFS)), \<lparr>fdtable = [Some (ready_socket AF_INET False)], faults = []\<rparr>)
   \<and> is_open \<lparr>fdtable = [Some (ready_socket AF_INET False)], faults = []\<rparr> 0
   \<and> createSocketZeroLinger linux AF_INET True (empty_kernel [0, 0, ENOBUFS])
     = ((0, Some (Errno ENOBUFS)), \<lparr>fdtable = [None], faults = []\<rparr>)
   \<and> \<not> is_open \<lparr>fdtable = [None], faults = []\<rparr> 0"
  by (simp add: createSocketZeroLinger_def createNonBlockingSocket_def createSocket_def
        setSockOpts_def setZeroLinger_def kernel_defs example_defs is_open_def errno_defs const_defs)

subsection \<open>C3: the attributes of a created socket\<close>

text \<open>
  Claim C3, amended. Every descriptor successfully returned by \<open>createSocketZeroLinger\<close> is
  a stream socket of the requested family, marked close-on-exec and non-blocking, whose
  \<^verbatim>\<open>TCP_QUICKACK\<close> option has been set to 0, so that quick-ack mode is off
  (acknowledgments are delayed), and whose linger option is \<open>zeroLinger\<close> exactly when
  zero-linger was requested.
\<close>

theorem createSocketZeroLinger_attributes:
  assumes "createSocketZeroLinger linux fam zl k = ((fd, None), k')"
  shows "lookup k' fd =
           Some \<lparr>cloexec = True, nonblock = True,
                 obj = Sock \<lparr>family = fam, sotype = SOCK_STREAM, quickack = False,
                            linger = (if zl then Some zeroLinger else None), so_error = 0\<rparr>\<rparr>"
proof -
  obtain fd0 e0 k1 where cn: "createNonBlockingSocket linux fam k = ((fd0, e0), k1)"
    by (metis surj_pair)
  have e0: "e0 = None" and fd: "fd0 = fd"
    using cn assms by (auto simp: createSocketZeroLinger_def split: if_splits prod.splits)
  have f: "lookup k1 fd = Some (ready_socket fam False)"
    using createNonBlockingSocket_lookup(1) [OF cn e0, of fd] fd by simp
  show ?thesis
  proof (cases zl)
    case False
    then have "k' = k1" using cn assms e0 by (simp add: createSocketZeroLinger_def)
    with f False show ?thesis by (simp add: ready_socket_def)
  next
    case True
    then have l: "k_SetsockoptLinger fd SOL_SOCKET SO_LINGER zeroLinger k1 = (None, k')"
      using cn assms e0 fd
      by (auto simp: createSocketZeroLinger_def setZeroLinger_def linux_def split: prod.splits)
    show ?thesis
      using k_SetsockoptLinger_lookup [OF l, of fd] f True by (simp add: ready_socket_def)
  qed
qed

theorem createSocketZeroLinger_attributes_witness:
  "createSocketZeroLinger linux AF_INET True (empty_kernel [])
     = ((0, None), \<lparr>fdtable = [Some (ready_socket AF_INET True)], faults = []\<rparr>)
   \<and> lookup \<lparr>fdtable = [Some (ready_socket AF_INET True)], faults = []\<rparr> 0 =
       Some \<lparr>cloexec = True, nonblock = True,
             obj = Sock \<lparr>family = AF_INET, sotype = SOCK_STREAM, quickack = False,
                        linger = Some \<lparr>Onoff = 1, Linger = 0\<rparr>, so_error = 0\<rparr>\<rparr>"
  using createSocketZeroLinger_attributes [OF create_on_empty [of True]]
  by (simp add: zeroLinger_def create_on_empty)

text \<open>Claim C3 as stated asks for quick-ack to be enabled on the created socket. On the
  empty kernel the call succeeds with descriptor 0, and quick-ack is off on it.\<close>

theorem createSocketZeroLinger_quickack_counterexample:
  "createSocketZeroLinger linux AF_INET False (empty_kernel [])
     = ((0, None), \<lparr>fdtable = [Some (ready_socket AF_INET False)], faults = []\<rparr>)
   \<and> map_option quickack (sock_of \<lparr>fdtable = [Some (ready_socket AF_INET False)], faults = []\<rparr> 0)
       = Some False"
  by (simp add: create_on_empty sock_of_def lookup_def ready_socket_def)

subsection \<open>C4: the error attached to an event\<close>

text \<open>
  Claim C4. For every ready descriptor returned by a wait call, the event's attached error is
  determined by the socket's pending error code: zero gives an event with no error, a nonzero
  code gives a connect-error carrying that code, and a failure to read the code is attached to
  the event instead. Stated on \<open>pollEvents\<close> itself, on the reference kernel: whenever the wait
  succeeds with the entries \<open>stored\<close>, the call returns, and what it returns is the translator
  of the spec (\<open>spec_translate\<close>, written from the words of section 4.5) run over the
  descriptors of those entries in order, with the kernel state that translator leaves. On this
  kernel, as with \<^verbatim>\<open>unix.GetsockoptInt\<close>, a failed read answers the value 0.
\<close>

theorem pollEvents_translates:
  assumes "EpollWait linux pollerFd maxEpollEvents (timeoutMS (IntSize linux) t) k
             = ((stored, n, None), k1)"
  shows "pollEvents linux pollerFd t k
           = Inr ((fst (spec_translate_all linux (map (\<lambda>e. sint (EpollEvent.Fd e)) stored) k1),
                   None),
                  snd (spec_translate_all linux (map (\<lambda>e. sint (EpollEvent.Fd e)) stored) k1))"
proof -
  have c: "n = int (length stored) \<and> length stored \<le> maxEpollEvents"
    using assms by (simp add: linux_def k_EpollWait_count)
  then have n: "0 \<le> n" "nat n \<le> maxEpollEvents" by simp_all
  have t: "take (nat n) (stored_over (replicate maxEpollEvents zeroEpollEvent) stored) = stored"
    using c stored_over_prefix [of stored "replicate maxEpollEvents zeroEpollEvent"] by simp
  have z: "\<And>fd w v e w'. GetsockoptInt linux fd SOL_SOCKET SO_ERROR w = ((v, Some e), w') \<Longrightarrow> v = 0"
    by (simp add: linux_def k_GetsockoptInt_failure_zero)
  show ?thesis
    using pollEvents_returns [OF assms n] by (simp add: t bodies_spec [OF z])
qed

theorem pollEvents_translates_witness:
  "pollEvents linux 0 0 (poller_kernel [111, 0, 0] [0, 0, 0, EBADF])
     = Inr (([\<lparr>Fd = 1, Err = Some (ErrConnect 111)\<rparr>, \<lparr>Fd = 2, Err = None\<rparr>,
              \<lparr>Fd = 3, Err = Some (SyscallError ''getsockopt'' (Errno EBADF))\<rparr>], None),
            waited_kernel [0, 0, 0] [])"
  using pollEvents_translates [OF wait_three, of 0]
  unfolding fds_three translate_three fst_conv snd_conv .

subsection \<open>C5: an interrupted wait\<close>

text \<open>
  Claim C5. For every poller descriptor and timeout, when the wait fails with \<^verbatim>\<open>EINTR\<close>,
  \<open>pollEvents\<close> returns the empty event list and no error; when it fails with any other
  error, \<open>pollEvents\<close> returns that error, wrapped as the syscall error \<^verbatim>\<open>epoll_wait\<close>.
\<close>

theorem pollEvents_wait_failure:
  assumes "EpollWait os pollerFd maxEpollEvents (timeoutMS (IntSize os) t) w = ((stored, n, Some e), w1)"
  shows "(e = Errno EINTR \<longrightarrow> pollEvents os pollerFd t w = Inr (([], None), w1))
       \<and> (e \<noteq> Errno EINTR \<longrightarrow>
            pollEvents os pollerFd t w = Inr (([], Some (SyscallError ''epoll_wait'' e)), w1))"
  using assms by (simp add: pollEvents_def NewSyscallError_def)

theorem pollEvents_wait_failure_witness:
  "pollEvents linux 0 5000000 (poller_kernel [0] [EINTR]) = Inr (([], None), poller_kernel [0] [])
 \<and> pollEvents linux 0 5000000 (poller_kernel [0] [EBADF])
     = Inr (([], Some (SyscallError ''epoll_wait'' (Errno EBADF))), poller_kernel [0] [])"
proof -
  have a: "EpollWait linux 0 maxEpollEvents (timeoutMS (IntSize linux) 5000000) (poller_kernel [0] [EINTR])
             = (([], - 1, Some (Errno EINTR)), poller_kernel [0] [])"
    by (rule wait_fault) (simp add: errno_defs)
  have b: "EpollWait linux 0 maxEpollEvents (timeoutMS (IntSize linux) 5000000) (poller_kernel [0] [EBADF])
             = (([], - 1, Some (Errno EBADF)), poller_kernel [0] [])"
    by (rule wait_fault) (simp add: errno_defs)
  show ?thesis
    using pollEvents_wait_failure [OF a] pollEvents_wait_failure [OF b]
    by (simp add: errno_defs)
qed

subsection \<open>C6: address resolution\<close>

text \<open>
  Claim C6. For every textual endpoint: a failure of the resolver is returned as it is, with no
  address; otherwise, if the resolved IP has an IPv4 form (\<^verbatim>\<open>To4\<close> is not nil), the result
  is an IPv4 socket address with family \<^verbatim>\<open>AF_INET\<close>; otherwise, if it has an IPv6 form
  (\<^verbatim>\<open>To16\<close> is not nil), an IPv6 socket address with family \<^verbatim>\<open>AF_INET6\<close>; otherwise
  the error "unsupported address family", with no address.
\<close>

theorem parseSockAddr_cases:
  "(ResolveTCPAddr nt ''tcp'' addr = Inl e \<longrightarrow> parseSockAddr nt addr = (None, 0, Some e))
 \<and> (ResolveTCPAddr nt ''tcp'' addr = Inr ta \<and> To4 nt (IP ta) = Some ip4 \<longrightarrow>
       parseSockAddr nt addr = (Some (SockaddrInet4 (Port ta) (copy_bytes 4 ip4)), AF_INET, None))
 \<and> (ResolveTCPAddr nt ''tcp'' addr = Inr ta \<and> To4 nt (IP ta) = None \<and> To16 nt (IP ta) = Some ip16 \<longrightarrow>
       parseSockAddr nt addr = (Some (SockaddrInet6 (Port ta) 0 (copy_bytes 16 ip16)), AF_INET6, None))
 \<and> (ResolveTCPAddr nt ''tcp'' addr = Inr ta \<and> To4 nt (IP ta) = None \<and> To16 nt (IP ta) = None \<longrightarrow>
       parseSockAddr nt addr =
         (None, 0, Some (AddrError ''unsupported address family'' (IPString nt (IP ta)))))"
  by (simp add: parseSockAddr_def)

theorem parseSockAddr_cases_witness:
  "parseSockAddr go_net ''127.0.0.1:80'' = (Some (SockaddrInet4 80 [127, 0, 0, 1]), AF_INET, None)
 \<and> parseSockAddr go_net ''[::1]:80''
     = (Some (SockaddrInet6 80 0 [0, 0, 0, 0, 0, 0, 0, 0, 0, 0, 0, 0, 0, 0, 0, 1]), AF_INET6, None)
 \<and> parseSockAddr go_net '':80''
     = (None, 0, Some (AddrError ''unsupported address family'' ''<nil>''))
 \<and> parseSockAddr go_net ''not-an-address''
     = (None, 0, Some (AddrError ''missing port in address'' ''not-an-address''))"
  using parseSockAddr_cases [of go_net "''127.0.0.1:80''" _
          "\<lparr>IP = [0, 0, 0, 0, 0, 0, 0, 0, 0, 0, 255, 255, 127, 0, 0, 1], Port = 80, Zone = []\<rparr>"
          "[127, 0, 0, 1]"]
    parseSockAddr_cases [of go_net "''[::1]:80''" _
          "\<lparr>IP = [0, 0, 0, 0, 0, 0, 0, 0, 0, 0, 0, 0, 0, 0, 0, 1], Port = 80, Zone = []\<rparr>" _
          "[0, 0, 0, 0, 0, 0, 0, 0, 0, 0, 0, 0, 0, 0, 0, 1]"]
    parseSockAddr_cases [of go_net "'':80''" _ "\<lparr>IP = [], Port = 80, Zone = []\<rparr>"]
    parseSockAddr_cases [of go_net "''not-an-address''"
          "AddrError ''missing port in address'' ''not-an-address''"]
  by (simp add: resolve_examples To4_examples To16_examples copy_bytes_examples)
     (simp add: go_net_def)

subsection \<open>C7: the batch of one wait\<close>

text \<open>
  Claim C7. Every successful \<open>pollEvents\<close> call returns at most \<open>maxEpollEvents\<close> (32)
  events. Either the wait was interrupted and the list is empty, or the list has exactly as
  many events as the kernel counted, and the descriptors of the events are, in order, those of
  the entries the kernel reported. On the reference kernel, a wait on a poller hands over the
  first 32 ready events and leaves the others ready for a later call: none is dropped, none is
  invented.
\<close>

theorem pollEvents_batch:
  "(pollEvents os pollerFd t w = Inr ((events, None), w')
      \<and> EpollWait os pollerFd maxEpollEvents (timeoutMS (IntSize os) t) w = ((stored, n, err), w1)
    \<longrightarrow> length events \<le> maxEpollEvents
        \<and> (err = Some (Errno EINTR) \<and> events = []
           \<or> err = None \<and> int (length events) = n
              \<and> map event.Fd events
                  = map (\<lambda>e. sint (EpollEvent.Fd e))
                      (take (nat n) (stored_over (replicate maxEpollEvents zeroEpollEvent) stored)))
        \<and> (err = None \<and> nat n \<le> length stored
            \<longrightarrow> map event.Fd events = map (\<lambda>e. sint (EpollEvent.Fd e)) (take (nat n) stored)))
 \<and> (lookup k pollerFd = Some ef \<and> obj ef = Epoll ep \<and> (faults k = [] \<or> hd (faults k) = 0)
    \<longrightarrow> (\<exists>evs k'. pollEvents linux pollerFd t k = Inr ((evs, None), k')
            \<and> map event.Fd evs
                 = map (\<lambda>e. sint (EpollEvent.Fd e)) (take maxEpollEvents (ready ep))
            \<and> ready_of k' pollerFd = drop maxEpollEvents (ready ep)))"
proof (intro conjI impI)
  assume h: "pollEvents os pollerFd t w = Inr ((events, None), w')
      \<and> EpollWait os pollerFd maxEpollEvents (timeoutMS (IntSize os) t) w = ((stored, n, err), w1)"
  let ?buf = "stored_over (replicate maxEpollEvents zeroEpollEvent) stored"
  have lb: "length ?buf = maxEpollEvents" by (simp add: length_stored_over)
  from h pollEvents_success_cases [of os pollerFd t w events w' stored n err w1]
  consider (intr) "err = Some (Errno EINTR)" "events = []"
    | (ok) "err = None" "0 \<le> n" "poll_loop os ?buf n 0 [] w1 = Inr (events, w')"
    by blast
  then have main: "length events \<le> maxEpollEvents
        \<and> (err = Some (Errno EINTR) \<and> events = []
           \<or> err = None \<and> int (length events) = n
              \<and> map event.Fd events = map (\<lambda>e. sint (EpollEvent.Fd e)) (take (nat n) ?buf))"
  proof cases
    case intr
    then show ?thesis by simp
  next
    case ok
    note r = poll_loop_result [OF ok(3)]
    have len: "length events = nat n" using r by simp
    have "nat n \<le> length ?buf"
    proof (cases "0 < n")
      case True
      with r show ?thesis by simp
    next
      case False
      with ok(2) show ?thesis by simp
    qed
    with len lb ok(1,2) r show ?thesis by simp
  qed
  show "length events \<le> maxEpollEvents" using main by simp
  show "err = Some (Errno EINTR) \<and> events = []
           \<or> err = None \<and> int (length events) = n
              \<and> map event.Fd events = map (\<lambda>e. sint (EpollEvent.Fd e)) (take (nat n) ?buf)"
    using main by simp
  assume c: "err = None \<and> nat n \<le> length stored"
  with main have l: "int (length events) = n" by auto
  with main have "nat n \<le> maxEpollEvents" by auto
  then have "take (nat n) ?buf = take (nat n) stored"
    using c by (simp add: stored_over_take)
  with main c show "map event.Fd events = map (\<lambda>e. sint (EpollEvent.Fd e)) (take (nat n) stored)"
    by auto
next
  assume h: "lookup k pollerFd = Some ef \<and> obj ef = Epoll ep \<and> (faults k = [] \<or> hd (faults k) = 0)"
  let ?out = "take maxEpollEvents (ready ep)"
  let ?buf = "stored_over (replicate maxEpollEvents zeroEpollEvent) ?out"
  from h k_EpollWait_delivers [of k pollerFd ef ep "timeoutMS (IntSize linux) t"]
  obtain k1 where w: "EpollWait linux pollerFd maxEpollEvents (timeoutMS (IntSize linux) t) k
                        = ((?out, int (length ?out), None), k1)"
    and r1: "ready_of k1 pollerFd = drop maxEpollEvents (ready ep)"
    by blast
  have le: "nat (int (length ?out)) \<le> length ?buf"
    by (simp add: length_stored_over)
  from poll_loop_total [OF le, of linux 0 "[]" k1]
  obtain evs k' where lp: "poll_loop linux ?buf (int (length ?out)) 0 [] k1 = Inr (evs, k')"
    by blast
  have pe: "pollEvents linux pollerFd t k = Inr ((evs, None), k')"
    using w lp by (simp add: pollEvents_def)
  have "take (length ?out) ?buf = ?out"
    by (rule stored_over_prefix) simp
  then have fds: "map event.Fd evs = map (\<lambda>e. sint (EpollEvent.Fd e)) ?out"
    using poll_loop_result [OF lp] by simp
  have "ready_of k' pollerFd = drop maxEpollEvents (ready ep)"
    using ready_of_poll_loop [OF lp] r1 by simp
  with pe fds show "\<exists>evs k'. pollEvents linux pollerFd t k = Inr ((evs, None), k')
            \<and> map event.Fd evs = map (\<lambda>e. sint (EpollEvent.Fd e)) (take maxEpollEvents (ready ep))
            \<and> ready_of k' pollerFd = drop maxEpollEvents (ready ep)"
    by blast
qed

theorem pollEvents_batch_witness:
  "\<exists>evs k'. pollEvents linux 0 0 (poller_kernel (replicate 33 0) []) = Inr ((evs, None), k')
      \<and> length evs = 32
      \<and> map event.Fd evs
          = [1,2,3,4,5,6,7,8,9,10,11,12,13,14,15,16,17,18,19,20,21,22,23,24,25,26,27,28,29,30,31,32]
      \<and> ready_of k' 0 = [ready_event 33]"
proof -
  let ?k = "poller_kernel (replicate 33 0) []"
  have h1: "lookup ?k 0 = Some (poller_file 33)"
    by (simp add: poller_kernel_def lookup_def)
  have h2: "obj (poller_file 33) = Epoll (poller_epoll 33)"
    by (simp add: poller_file_def)
  have h3: "faults ?k = [] \<or> hd (faults ?k) = 0"
    by (simp add: poller_kernel_def)
  have r: "ready (poller_epoll 33) = map ready_event [1..<34]"
    by (simp add: poller_epoll_def)
  from pollEvents_batch [where k = ?k and pollerFd = 0 and ef = "poller_file 33"
      and ep = "poller_epoll 33" and t = 0, THEN conjunct2, THEN mp, OF conjI [OF h1 conjI [OF h2 h3]]]
  obtain evs k' where pe: "pollEvents linux 0 0 ?k = Inr ((evs, None), k')"
    and fds: "map event.Fd evs
                = map (\<lambda>e. sint (EpollEvent.Fd e)) (take maxEpollEvents (ready (poller_epoll 33)))"
    and rest: "ready_of k' 0 = drop maxEpollEvents (ready (poller_epoll 33))"
    by blast
  from k_EpollWait_delivers [OF h1 h2 h3, of "timeoutMS (IntSize linux) 0"]
  obtain k1 where w: "EpollWait linux 0 maxEpollEvents (timeoutMS (IntSize linux) 0) ?k
                = ((take maxEpollEvents (ready (poller_epoll 33)),
                    int (length (take maxEpollEvents (ready (poller_epoll 33)))), None), k1)"
    by blast
  have n: "length (take maxEpollEvents (ready (poller_epoll 33))) = 32"
    by (simp add: r maxEpollEvents_def)
  note g = pollEvents_batch [where os = linux and pollerFd = 0 and t = 0 and w = ?k,
      THEN conjunct1, THEN mp, OF conjI [OF pe w]]
  have len: "length evs = 32"
    using g n by simp
  have fds': "map event.Fd evs
      = [1,2,3,4,5,6,7,8,9,10,11,12,13,14,15,16,17,18,19,20,21,22,23,24,25,26,27,28,29,30,31,32]"
    using fds unfolding r maxEpollEvents_def fds_33 .
  have rest': "ready_of k' 0 = [ready_event 33]"
    using rest unfolding r maxEpollEvents_def rest_33 .
  show ?thesis
    by (intro exI [of _ evs] exI [of _ k'] conjI pe len fds' rest')
qed

subsection \<open>C8: the names of the syscall errors\<close>

text \<open>
  Claim C8, amended. Every error returned by \<open>createPoller\<close>, \<open>registerEvents\<close> and
  \<open>pollEvents\<close>, and the error attached to an event when reading the pending error fails
  with the value zero, is a syscall error wrapping the raw cause of the call. The names are
  \<^verbatim>\<open>epoll_create1\<close>, \<^verbatim>\<open>epoll_ctl(P, ADD, F, ...)\<close> with the decimal poller descriptor
  \<open>P\<close> and descriptor \<open>F\<close>, \<^verbatim>\<open>epoll_wait\<close> and \<^verbatim>\<open>getsockopt\<close>.
\<close>

theorem syscall_error_names:
  "(createPoller os w = ((pfd, Some err1), w1) \<longrightarrow>
      (\<exists>e. EpollCreate1 os EPOLL_CLOEXEC w = ((pfd, Some e), w1)
            \<and> err1 = SyscallError ''epoll_create1'' e))
 \<and> (registerEvents os pollerFd fd w = (Some err2, w2) \<longrightarrow>
      (\<exists>e ev. EpollCtl os pollerFd EPOLL_CTL_ADD fd ev w = (Some e, w2)
            \<and> err2 = SyscallError
                       (''epoll_ctl('' @ show_int pollerFd @ '', ADD, '' @ show_int fd @ '', ...)'') e))
 \<and> (pollEvents os pollerFd t w = Inr ((events, Some err3), w3) \<longrightarrow>
      (\<exists>e stored n. EpollWait os pollerFd maxEpollEvents (timeoutMS (IntSize os) t) w = ((stored, n, Some e), w3)
            \<and> e \<noteq> Errno EINTR \<and> err3 = SyscallError ''epoll_wait'' e))
 \<and> (GetsockoptInt os (sint (EpollEvent.Fd raw)) SOL_SOCKET SO_ERROR w = ((0, Some e4), w4) \<longrightarrow>
      Err (fst (pollEvents_body os raw w)) = Some (SyscallError ''getsockopt'' e4))"
proof (intro conjI impI)
  assume "createPoller os w = ((pfd, Some err1), w1)"
  then show "\<exists>e. EpollCreate1 os EPOLL_CLOEXEC w = ((pfd, Some e), w1)
            \<and> err1 = SyscallError ''epoll_create1'' e"
    by (auto simp: createPoller_def NewSyscallError_def Let_def
             split: prod.splits if_splits option.splits)
next
  assume "registerEvents os pollerFd fd w = (Some err2, w2)"
  then show "\<exists>e ev. EpollCtl os pollerFd EPOLL_CTL_ADD fd ev w = (Some e, w2)
            \<and> err2 = SyscallError
                       (''epoll_ctl('' @ show_int pollerFd @ '', ADD, '' @ show_int fd @ '', ...)'') e"
    by (auto simp: registerEvents_def NewSyscallError_def Let_def
             split: prod.splits if_splits option.splits)
next
  assume "pollEvents os pollerFd t w = Inr ((events, Some err3), w3)"
  then show "\<exists>e stored n. EpollWait os pollerFd maxEpollEvents (timeoutMS (IntSize os) t) w = ((stored, n, Some e), w3)
            \<and> e \<noteq> Errno EINTR \<and> err3 = SyscallError ''epoll_wait'' e"
    by (auto simp: pollEvents_def NewSyscallError_def Let_def
             split: prod.splits if_splits option.splits sum.splits)
next
  assume "GetsockoptInt os (sint (EpollEvent.Fd raw)) SOL_SOCKET SO_ERROR w = ((0, Some e4), w4)"
  then show "Err (fst (pollEvents_body os raw w)) = Some (SyscallError ''getsockopt'' e4)"
    by (simp add: pollEvents_body_def NewSyscallError_def)
qed

theorem syscall_error_names_witness:
  "(\<exists>e. EpollCreate1 linux EPOLL_CLOEXEC (empty_kernel [EMFILE]) = ((- 1, Some e), empty_kernel [])
        \<and> SyscallError ''epoll_create1'' (Errno EMFILE) = SyscallError ''epoll_create1'' e)
 \<and> (\<exists>e ev. EpollCtl linux 0 EPOLL_CTL_ADD 1 ev (poller_kernel [0] []) = (Some e, poller_kernel [0] [])
        \<and> SyscallError ''epoll_ctl(0, ADD, 1, ...)'' (Errno EEXIST)
            = SyscallError (''epoll_ctl('' @ show_int 0 @ '', ADD, '' @ show_int 1 @ '', ...)'') e)
 \<and> (\<exists>e stored n. EpollWait linux 0 maxEpollEvents (timeoutMS (IntSize linux) 0) (poller_kernel [0] [EBADF])
                     = ((stored, n, Some e), poller_kernel [0] [])
        \<and> e \<noteq> Errno EINTR
        \<and> SyscallError ''epoll_wait'' (Errno EBADF) = SyscallError ''epoll_wait'' e)
 \<and> Err (fst (pollEvents_body linux (ready_event 1) (poller_kernel [0] [EBADF])))
     = Some (SyscallError ''getsockopt'' (Errno EBADF))"
  by (intro conjI
      syscall_error_names [THEN conjunct1, THEN mp, OF createPoller_fault]
      syscall_error_names [THEN conjunct2, THEN conjunct1, THEN mp, OF registerEvents_twice]
      syscall_error_names [THEN conjunct2, THEN conjunct2, THEN conjunct1, THEN mp,
        OF pollEvents_fault]
      syscall_error_names [THEN conjunct2, THEN conjunct2, THEN conjunct2, THEN mp,
        OF read_failed_event])

text \<open>Claim C8 as stated names the errors \<^verbatim>\<open>epoll_create\<close> and \<^verbatim>\<open>epoll_ctl\<close>. A
  failed creation and a second registration of descriptor 1 carry other names.\<close>

theorem syscall_error_names_counterexample:
  "createPoller linux (empty_kernel [EMFILE])
     = ((- 1, Some (SyscallError ''epoll_create1'' (Errno EMFILE))), empty_kernel [])
   \<and> SyscallError ''epoll_create1'' (Errno EMFILE) \<noteq> SyscallError ''epoll_create'' (Errno EMFILE)
   \<and> registerEvents linux 0 1 (poller_kernel [0] [])
     = (Some (SyscallError ''epoll_ctl(0, ADD, 1, ...)'' (Errno EEXIST)), poller_kernel [0] [])
   \<and> SyscallError ''epoll_ctl(0, ADD, 1, ...)'' (Errno EEXIST) \<noteq> SyscallError ''epoll_ctl'' (Errno EEXIST)"
  by (simp add: createPoller_fault registerEvents_twice)

subsection \<open>C9: the bound of the wait\<close>

text \<open>
  Claim C9, amended. For every requested timeout from zero up to, but excluding,
  \<open>2\<^sup>3\<^sup>1\<close> milliseconds, and for an \<^verbatim>\<open>int\<close> of 32 or of 64 bits, \<open>pollEvents\<close> passes
  the kernel the nanosecond count divided by one million and rounded down: the kernel that writes
  down the bound it reads from each wait (\<open>recorder\<close>) reads exactly that number, so the
  kernel-level bound never exceeds the requested timeout and is less than one millisecond short
  of it; a positive timeout shorter than one millisecond is read as zero. On any operating
  system the call depends on the timeout only through that number: two systems that answer the
  wait with that bound alike, and read the pending error alike, make \<open>pollEvents\<close> return the
  same.
\<close>

theorem pollEvents_wait_bound:
  assumes "bits = 32 \<or> bits = 64" and "0 \<le> sint t" and "sint t < 2147483648000000"
  shows "pollEvents (recorder bits) pollerFd t waits
           = Inr (([], None), (sint t div 1000000) # waits)
       \<and> within_timeout (sint t div 1000000) (sint t)
       \<and> sint t < (sint t div 1000000 + 1) * 1000000
       \<and> (0 < sint t \<and> sint t < 1000000 \<longrightarrow>
            pollEvents (recorder bits) pollerFd t waits = Inr (([], None), 0 # waits))
       \<and> (IntSize os = bits \<and> IntSize os' = bits \<and> GetsockoptInt os' = GetsockoptInt os
            \<and> EpollWait os' pollerFd maxEpollEvents (sint t div 1000000) w
                = EpollWait os pollerFd maxEpollEvents (sint t div 1000000) w
            \<longrightarrow> pollEvents os' pollerFd t w = pollEvents os pollerFd t w)"
proof -
  have b: "0 \<le> sint t div 1000000 \<and> sint t div 1000000 * 1000000 \<le> sint t
           \<and> sint t < (sint t div 1000000 + 1) * 1000000"
    by (rule div_floor_bounds [OF assms(2)]) simp
  have r: "pollEvents (recorder bits) pollerFd t waits
             = Inr (([], None), (sint t div 1000000) # waits)"
    unfolding pollEvents_recorder timeoutMS_in_range(2) [OF assms] ..
  have wt: "within_timeout (sint t div 1000000) (sint t)"
    unfolding within_timeout_def using b by blast
  have up: "sint t < (sint t div 1000000 + 1) * 1000000"
    using b by blast
  have z: "0 < sint t \<and> sint t < 1000000 \<longrightarrow>
            pollEvents (recorder bits) pollerFd t waits = Inr (([], None), 0 # waits)"
  proof
    assume "0 < sint t \<and> sint t < 1000000"
    then have "sint t div 1000000 = 0" by simp
    then show "pollEvents (recorder bits) pollerFd t waits = Inr (([], None), 0 # waits)"
      using r by (simp only:)
  qed
  have g: "IntSize os = bits \<and> IntSize os' = bits \<and> GetsockoptInt os' = GetsockoptInt os
            \<and> EpollWait os' pollerFd maxEpollEvents (sint t div 1000000) w
                = EpollWait os pollerFd maxEpollEvents (sint t div 1000000) w
            \<longrightarrow> pollEvents os' pollerFd t w = pollEvents os pollerFd t w"
  proof
    assume h: "IntSize os = bits \<and> IntSize os' = bits \<and> GetsockoptInt os' = GetsockoptInt os
            \<and> EpollWait os' pollerFd maxEpollEvents (sint t div 1000000) w
                = EpollWait os pollerFd maxEpollEvents (sint t div 1000000) w"
    then have i1: "IntSize os = bits" and i2: "IntSize os' = bits"
      and gs: "GetsockoptInt os' = GetsockoptInt os"
      and ew: "EpollWait os' pollerFd maxEpollEvents (sint t div 1000000) w
                = EpollWait os pollerFd maxEpollEvents (sint t div 1000000) w"
      by blast+
    show "pollEvents os' pollerFd t w = pollEvents os pollerFd t w"
      unfolding pollEvents_def i1 i2 timeoutMS_in_range(1) [OF assms] ew poll_loop_cong [OF gs] ..
  qed
  show ?thesis
    by (intro conjI r wt up z g)
qed

theorem pollEvents_wait_bound_witness:
  "pollEvents (recorder 64) 0 2500000 [] = Inr (([], None), [2])
 \<and> within_timeout 2 2500000
 \<and> pollEvents (recorder 32) 0 999999 [2] = Inr (([], None), [0, 2])
 \<and> within_timeout 0 999999
 \<and> pollEvents (linux\<lparr>EpollWait := (\<lambda>epfd len msec. k_EpollWait epfd len 2)\<rparr>) 0 2500000
       (poller_kernel [0] [])
     = pollEvents linux 0 2500000 (poller_kernel [0] [])"
proof -
  let ?os' = "linux\<lparr>EpollWait := (\<lambda>epfd len msec. k_EpollWait epfd len 2)\<rparr>"
  have a: "0 \<le> sint (2500000 :: 64 word)" "sint (2500000 :: 64 word) < 2147483648000000"
    by simp_all
  have b: "0 \<le> sint (999999 :: 64 word)" "sint (999999 :: 64 word) < 2147483648000000"
    by simp_all
  have c: "(64::nat) = 32 \<or> (64::nat) = 64" "(32::nat) = 32 \<or> (32::nat) = 64"
    by simp_all
  have d: "sint (2500000 :: 64 word) div 1000000 = 2" "sint (999999 :: 64 word) div 1000000 = 0"
    "sint (2500000 :: 64 word) = 2500000" "sint (999999 :: 64 word) = 999999"
    by simp_all
  have e: "(2500000 :: int) div 1000000 = 2" "(999999 :: int) div 1000000 = 0"
    by simp_all
  note A = pollEvents_wait_bound [OF c(1) a, where pollerFd = 0 and waits = "[]" and os = linux
      and os' = ?os' and w = "poller_kernel [0] []", unfolded d(3,4) e]
  note B = pollEvents_wait_bound [OF c(2) b, where pollerFd = 0 and waits = "[2]" and os = linux
      and os' = linux and w = "poller_kernel [0] []", unfolded d(3,4) e]
  have h: "IntSize linux = 64 \<and> IntSize ?os' = 64 \<and> GetsockoptInt ?os' = GetsockoptInt linux
            \<and> EpollWait ?os' 0 maxEpollEvents 2 (poller_kernel [0] [])
                = EpollWait linux 0 maxEpollEvents 2 (poller_kernel [0] [])"
    by (simp add: linux_def)
  note a1 = A [THEN conjunct1]
  note a2 = A [THEN conjunct2, THEN conjunct1]
  note a3 = A [THEN conjunct2, THEN conjunct2, THEN conjunct2, THEN conjunct2, THEN mp, OF h]
  note b1 = B [THEN conjunct1]
  note b2 = B [THEN conjunct2, THEN conjunct1]
  show ?thesis by (intro conjI a1 a2 b1 b2 a3)
qed

text \<open>Claim C9 as stated speaks of every requested timeout. Line 85 divides with Go's
  \<^verbatim>\<open>/\<close>, which truncates towards zero, converts to \<^verbatim>\<open>int\<close>, and the kernel reads a C
  \<^verbatim>\<open>int\<close>: a timeout of \<open>-1.5\<close> ms is read as \<open>-1\<close> (wait without bound), one of \<open>-1\<close> ns as
  \<open>0\<close>, which exceeds the request, and one of \<open>2\<^sup>3\<^sup>1\<close> ms is read as \<open>-2\<^sup>3\<^sup>1\<close> on either
  width of \<^verbatim>\<open>int\<close>.\<close>

theorem pollEvents_wait_bound_counterexample:
  "pollEvents (recorder 64) 0 (- 1500000) [] = Inr (([], None), [- 1])
 \<and> \<not> within_timeout (- 1) (sint (- 1500000 :: 64 word))
 \<and> pollEvents (recorder 64) 0 (- 1) [] = Inr (([], None), [0])
 \<and> \<not> within_timeout 0 (sint (- 1 :: 64 word))
 \<and> pollEvents (recorder 64) 0 2147483648000000 [] = Inr (([], None), [- 2147483648])
 \<and> pollEvents (recorder 32) 0 2147483648000000 [] = Inr (([], None), [- 2147483648])
 \<and> \<not> within_timeout (- 2147483648) (sint (2147483648000000 :: 64 word))"
  by (simp add: pollEvents_recorder timeoutMS_def go_int_def c_int_def within_timeout_def
        signed_divide_int_def signed_take_bit_eq_take_bit_shift)

subsection \<open>C10: a failed read that answers a nonzero value\<close>

text \<open>
  Claim C10. In \<open>pollEvents\<close> the check of the pending error code comes after the check of the
  read's own failure and does not depend on it. For any operating system and any successful
  wait reporting \<open>n\<close> entries, if the read of the pending error of the \<open>i\<close>-th reported
  descriptor (made after the reads of the descriptors before it) fails with \<open>e\<close> and answers
  the value \<open>errCode\<close>, then \<open>pollEvents\<close> returns \<open>n\<close> events, the \<open>i\<close>-th of them is for that
  descriptor, it carries the connect-error of \<open>errCode\<close> whenever \<open>errCode\<close> is not zero, and it
  carries the read failure, as the syscall error \<^verbatim>\<open>getsockopt\<close>, exactly when \<open>errCode\<close> is
  zero.
\<close>

theorem pollEvents_overwrite:
  assumes "EpollWait os pollerFd maxEpollEvents (timeoutMS (IntSize os) t) w = ((stored, n, None), w1)"
      and "0 \<le> n" and "nat n \<le> maxEpollEvents" and "i < nat n"
      and "fds = map (\<lambda>e. sint (EpollEvent.Fd e))
                   (take (nat n) (stored_over (replicate maxEpollEvents zeroEpollEvent) stored))"
      and "GetsockoptInt os (fds ! i) SOL_SOCKET SO_ERROR (after_reads os (take i fds) w1)
             = ((errCode, Some e), wi)"
  shows "\<exists>events w'. pollEvents os pollerFd t w = Inr ((events, None), w')
           \<and> length events = nat n
           \<and> event.Fd (events ! i) = fds ! i
           \<and> (errCode \<noteq> 0 \<longrightarrow> Err (events ! i) = Some (newErrConnect errCode))
           \<and> (Err (events ! i) = Some (SyscallError ''getsockopt'' e) \<longleftrightarrow> errCode = 0)"
proof -
  let ?raws = "take (nat n) (stored_over (replicate maxEpollEvents zeroEpollEvent) stored)"
  let ?events = "fst (bodies os ?raws w1)"
  have len: "length ?raws = nat n"
    using assms(3) by (simp add: length_stored_over)
  then have i: "i < length ?raws" using assms(4) by simp
  have fd: "fds ! i = sint (EpollEvent.Fd (?raws ! i))"
    using i by (simp add: assms(5))
  have tk: "take i fds = map (\<lambda>e. sint (EpollEvent.Fd e)) (take i ?raws)"
    by (simp add: assms(5) take_map)
  have g: "GetsockoptInt os (sint (EpollEvent.Fd (?raws ! i))) SOL_SOCKET SO_ERROR
             (after_reads os (map (\<lambda>e. sint (EpollEvent.Fd e)) (take i ?raws)) w1)
             = ((errCode, Some e), wi)"
    using assms(6) by (simp only: fd tk)
  have ev: "?events ! i
              = \<lparr>Fd = fds ! i,
                 Err = (if errCode \<noteq> 0 then Some (newErrConnect errCode)
                        else NewSyscallError ''getsockopt'' (Some e))\<rparr>"
    using bodies_nth [OF i, of os w1] pollEvents_body_eq [OF g] by (simp add: fd)
  have "pollEvents os pollerFd t w = Inr ((?events, None), snd (bodies os ?raws w1))"
    by (rule pollEvents_returns [OF assms(1,2,3)])
  moreover have "length ?events = nat n" using len by (simp only: bodies_length)
  moreover have "event.Fd (?events ! i) = fds ! i" by (simp add: ev)
  moreover have "errCode \<noteq> 0 \<longrightarrow> Err (?events ! i) = Some (newErrConnect errCode)"
    by (simp add: ev)
  moreover have "Err (?events ! i) = Some (SyscallError ''getsockopt'' e) \<longleftrightarrow> errCode = 0"
    by (simp add: ev NewSyscallError_def newErrConnect_def)
  ultimately show ?thesis by blast
qed

theorem pollEvents_overwrite_witness:
  "(\<exists>events k'. pollEvents value_and_error 0 0 (poller_kernel [0] [0]) = Inr ((events, None), k')
       \<and> length events = 1 \<and> event.Fd (events ! 0) = 1
       \<and> Err (events ! 0) = Some (ErrConnect 111))
 \<and> (\<exists>events k'. pollEvents linux 0 0 (poller_kernel [0] [0, EBADF]) = Inr ((events, None), k')
       \<and> length events = 1 \<and> event.Fd (events ! 0) = 1
       \<and> Err (events ! 0) = Some (SyscallError ''getsockopt'' (Errno EBADF)))"
proof -
  have n: "(0::int) \<le> 1" "nat 1 \<le> maxEpollEvents" "0 < nat 1"
    by (simp_all add: maxEpollEvents_def)
  have c: "(111::int) \<noteq> 0" by simp
  from pollEvents_overwrite [OF wait_one_both n refl read_both, of 0, unfolded fds_one]
  obtain ev1 k1 where a: "pollEvents value_and_error 0 0 (poller_kernel [0] [0]) = Inr ((ev1, None), k1)"
      "length ev1 = nat 1" "event.Fd (ev1 ! 0) = [1] ! 0"
      "Err (ev1 ! 0) = Some (newErrConnect 111)"
    using c by blast
  from pollEvents_overwrite [OF wait_one n refl read_fails_zero, of 0, unfolded fds_one]
  obtain ev2 k2 where b: "pollEvents linux 0 0 (poller_kernel [0] [0, EBADF]) = Inr ((ev2, None), k2)"
      "length ev2 = nat 1" "event.Fd (ev2 ! 0) = [1] ! 0"
      "Err (ev2 ! 0) = Some (SyscallError ''getsockopt'' (Errno EBADF))"
    by blast
  have a2: "length ev1 = 1" and a3: "event.Fd (ev1 ! 0) = 1"
    using a(2,3) by simp_all
  have a4: "Err (ev1 ! 0) = Some (ErrConnect 111)"
    using a(4) by (simp add: newErrConnect_def)
  have b2: "length ev2 = 1" and b3: "event.Fd (ev2 ! 0) = 1"
    using b(2,3) by simp_all
  show ?thesis
    by (intro conjI exI [of _ ev1] exI [of _ k1] exI [of _ ev2] exI [of _ k2]
          a(1) a2 a3 a4 b(1) b2 b3 b(4))
qed


end
